theory Spec2Isabelle
  imports Main "HOL-Library.AList"
begin

section \<open>JavaScript strings and objects\<close>

text \<open>
  A JavaScript string is modelled as a \<^typ>\<open>string\<close>, one \<^typ>\<open>char\<close> per code unit;
  the model therefore covers the strings whose code units are below 256.
  An object is an association list in insertion order; a property assignment
  \<^verbatim>\<open>o[k] = v\<close> is \<^const>\<open>AList.update\<close> and a property read is \<^const>\<open>map_of\<close>.
\<close>

datatype 'n jsval =
    JUndefined
  | JBool bool
  | JNum 'n
  | JStr string
  | JArr "string list"
  | JObj "(string \<times> 'n jsval) list"

type_synonym 'n jsobject = "(string \<times> 'n jsval) list"

text \<open>\<^verbatim>\<open>String.prototype.toLowerCase\<close> on code units below 256: the ASCII capitals and
  the Latin-1 capitals (all of 0xC0..0xDE but the multiplication sign 0xD7) move up by 32.\<close>

definition toLowerCase_char :: "char \<Rightarrow> char" where
  "toLowerCase_char c =
     (let n = (of_char c :: nat)
      in if (65 \<le> n \<and> n \<le> 90) \<or> (192 \<le> n \<and> n \<le> 222 \<and> n \<noteq> 215)
         then char_of (n + 32) else c)"

definition toLowerCase :: "string \<Rightarrow> string" where
  "toLowerCase s = map toLowerCase_char s"

text \<open>The white space and line terminators that \<^verbatim>\<open>String.prototype.trim\<close> strips,
  among the code units below 256: TAB, LF, VT, FF, CR, SP and NBSP.\<close>

definition isWhiteSpace :: "char \<Rightarrow> bool" where
  "isWhiteSpace c = ((of_char c :: nat) \<in> set [9, 10, 11, 12, 13, 32, 160])"

definition trim :: "string \<Rightarrow> string" where
  "trim s = rev (dropWhile isWhiteSpace (rev (dropWhile isWhiteSpace s)))"

text \<open>\<^verbatim>\<open>s.split(sep)\<close> for a one-character separator: never an empty array.\<close>

fun split_str :: "char \<Rightarrow> string \<Rightarrow> string list" where
  "split_str sep [] = [[]]"
| "split_str sep (c # cs) =
     (if c = sep then [] # split_str sep cs
      else (case split_str sep cs of
              p # ps \<Rightarrow> (c # p) # ps
            | [] \<Rightarrow> [[c]]))"

text \<open>The line terminators that the regular expression atom \<^verbatim>\<open>.\<close> refuses (LF and CR here).\<close>

definition isLineTerminator :: "char \<Rightarrow> bool" where
  "isLineTerminator c = ((of_char c :: nat) \<in> set [10, 13])"

text \<open>
  \<^verbatim>\<open>override.match(/^(.*?)=(.*)$/)\<close>: the pattern is anchored at both ends and neither group
  crosses a line terminator, so it matches exactly the strings with an equal sign and no line
  terminator; the lazy first group stops at the first equal sign. The result is the pair of
  groups, \<^const>\<open>None\<close> for \<^verbatim>\<open>null\<close>.
\<close>

definition matchOverride :: "string \<Rightarrow> (string \<times> string) option" where
  "matchOverride s =
     (if CHR ''='' \<in> set s \<and> \<not> list_ex isLineTerminator s
      then Some (takeWhile (\<lambda>c. c \<noteq> CHR ''='') s, tl (dropWhile (\<lambda>c. c \<noteq> CHR ''='') s))
      else None)"

section \<open>The edit distance of \<^verbatim>\<open>fast-levenshtein\<close>\<close>

text \<open>
  \<^verbatim>\<open>levenshtein.get(a, b)\<close> comes from the third-party package \<^verbatim>\<open>fast-levenshtein\<close>: the
  Levenshtein distance of two strings, counted in code units. \<open>lev\<close> is its textbook
  recursion; \<open>levenshtein\<close> computes it row by row, as the package does, and is the
  function the resolver calls.
\<close>

fun lev :: "string \<Rightarrow> string \<Rightarrow> nat" where
  "lev [] b = length b"
| "lev a [] = length a"
| "lev (c # a) (d # b) =
     min (min (Suc (lev a (d # b))) (Suc (lev (c # a) b)))
         (lev a b + (if c = d then 0 else 1))"

text \<open>\<open>next_row c b row\<close>: from the distances of \<open>a\<close> to every suffix of \<open>b\<close>
  (longest suffix first), those of \<open>c # a\<close>; \<open>cell\<close> adds the entry for one more
  character \<open>d\<close> of \<open>b\<close>.\<close>

fun cell :: "char \<Rightarrow> char \<Rightarrow> nat list \<Rightarrow> nat list \<Rightarrow> nat list" where
  "cell c d (x # y # row) (r # rest) =
     min (min (Suc x) (Suc r)) (y + (if c = d then 0 else 1)) # r # rest"
| "cell c d row rest = rest"

fun next_row :: "char \<Rightarrow> string \<Rightarrow> nat list \<Rightarrow> nat list" where
  "next_row c [] row = [Suc (last row)]"
| "next_row c (d # b) row = cell c d row (next_row c b (tl row))"

fun lev_rows :: "string \<Rightarrow> string \<Rightarrow> nat list" where
  "lev_rows [] b = rev [0..<Suc (length b)]"
| "lev_rows (c # a) b = next_row c b (lev_rows a b)"

definition levenshtein :: "string \<Rightarrow> string \<Rightarrow> nat" where
  "levenshtein a b = hd (lev_rows a b)"

text \<open>The suffixes of a string, longest first: the strings a row of distances ranges over.\<close>

fun sufs :: "string \<Rightarrow> string list" where
  "sufs [] = [[]]"
| "sufs (d # b) = (d # b) # sufs b"

section \<open>Value coercions (\<^verbatim>\<open>utils/internal\<close>)\<close>

definition toBoolean :: "string option \<Rightarrow> bool option" where
  "toBoolean env =
     (case env of
        None \<Rightarrow> None
      | Some e \<Rightarrow>
          if toLowerCase e = ''true'' \<or> e = ''1'' then Some True
          else if toLowerCase e = ''false'' \<or> e = ''0'' then Some False
          else None)"

text \<open>
  \<^verbatim>\<open>Number(env)\<close> is the built-in string-to-number conversion; it is a parameter \<open>Number\<close>
  of the model, \<^const>\<open>None\<close> standing for \<^verbatim>\<open>NaN\<close>.
\<close>

definition toNumber :: "(string \<Rightarrow> 'n option) \<Rightarrow> string option \<Rightarrow> 'n option" where
  "toNumber Number env =
     (case env of
        None \<Rightarrow> None
      | Some e \<Rightarrow> if trim e = [] then None else Number e)"

text \<open>\<open>enumValues\<close> is \<^verbatim>\<open>Object.values(ExecutionRule)\<close>; the enumeration is declared in
  \<^verbatim>\<open>interfaces\<close> and is a parameter here.\<close>

definition toExecutionRule :: "string list \<Rightarrow> string option \<Rightarrow> string option" where
  "toExecutionRule enumValues env =
     (case env of
        None \<Rightarrow> None
      | Some e \<Rightarrow> if toLowerCase e \<in> set enumValues then Some (toLowerCase e) else None)"

definition allOverrideKeys :: "string list" where
  "allOverrideKeys =
     [''cookies'', ''retry'', ''basicAuth'', ''allowInsecureCertificates'', ''body'',
      ''bodyType'', ''defaultStepTimeout'', ''deviceIds'', ''executionRule'',
      ''followRedirects'', ''headers'', ''locations'', ''pollingTimeout'',
      ''resourceUrlSubstitutionRegexes'', ''startUrl'', ''startUrlSubstitutionRegex'',
      ''testTimeout'', ''variables'']"

text \<open>A thrown \<^verbatim>\<open>Error\<close> is its message, on the left of the sum.\<close>

definition parseOverrideValue ::
  "(string \<Rightarrow> 'n option) \<Rightarrow> string list \<Rightarrow> string \<Rightarrow> string \<Rightarrow> string + 'n jsval" where
  "parseOverrideValue Number enumValues v type =
     (if type = ''boolean'' then
        (case toBoolean (Some v) of
           Some b \<Rightarrow> Inr (JBool b)
         | None \<Rightarrow> Inl (''Invalid boolean value: '' @ v))
      else if type = ''number'' then
        (case toNumber Number (Some v) of
           Some n \<Rightarrow> Inr (JNum n)
         | None \<Rightarrow> Inl (''Invalid number value: '' @ v))
      else if type = ''string'' then Inr (JStr (trim v))
      else if type = ''string[]'' then Inr (JArr (map trim (split_str CHR '';'' v)))
      else if type = ''ExecutionRule'' then
        (case toExecutionRule enumValues (Some v) of
           Some r \<Rightarrow> Inr (JStr r)
         | None \<Rightarrow> Inl (''Invalid ExecutionRule value: '' @ v))
      else Inl (''Unknown type: '' @ type))"

text \<open>The \<^verbatim>\<open>reduce\<close> without initial value over \<^const>\<open>allOverrideKeys\<close>: the first key
  at the least distance.\<close>

definition closestKey :: "string \<Rightarrow> string" where
  "closestKey key =
     (case allOverrideKeys of
        k # ks \<Rightarrow>
          foldl (\<lambda>prev curr. if levenshtein curr key < levenshtein prev key then curr else prev)
            k ks
      | [] \<Rightarrow> [])"

text \<open>\<^verbatim>\<open>rawKey.split('.')[0]\<close> and \<^verbatim>\<open>rawKey.split('.')[1]\<close> (\<^const>\<open>None\<close> for
  \<^verbatim>\<open>undefined\<close>) of \<^verbatim>\<open>rawKey = match[1] ?? ''\<close>, and \<^verbatim>\<open>match[2] ?? ''\<close>.\<close>

definition overrideRawKey :: "string \<Rightarrow> string" where
  "overrideRawKey override = (case matchOverride override of Some (k, v) \<Rightarrow> k | None \<Rightarrow> [])"

definition overrideValue :: "string \<Rightarrow> string" where
  "overrideValue override = (case matchOverride override of Some (k, v) \<Rightarrow> v | None \<Rightarrow> [])"

definition overrideKey :: "string \<Rightarrow> string" where
  "overrideKey override =
     (case split_str CHR ''.'' (overrideRawKey override) of k # _ \<Rightarrow> k | [] \<Rightarrow> [])"

definition overrideSubKey :: "string \<Rightarrow> string option" where
  "overrideSubKey override =
     (case split_str CHR ''.'' (overrideRawKey override) of _ # s # _ \<Rightarrow> Some s | _ \<Rightarrow> None)"

text \<open>\<^verbatim>\<open>acc[k] = acc[k] ?? {}; acc[k][sub] = v\<close> for a primitive \<open>v\<close>. Assigning a primitive
  to \<^verbatim>\<open>__proto__\<close> goes to the prototype setter, which ignores it: no property is added.\<close>

definition setSubKey :: "string \<Rightarrow> string \<Rightarrow> 'n jsval \<Rightarrow> 'n jsobject \<Rightarrow> 'n jsobject" where
  "setSubKey k sub v acc =
     (let obj = (case map_of acc k of Some (JObj ps) \<Rightarrow> ps | _ \<Rightarrow> [])
      in AList.update k (JObj (if sub = ''__proto__'' then obj else AList.update sub v obj)) acc)"

definition assign ::
  "string \<Rightarrow> string + 'n jsval \<Rightarrow> 'n jsobject \<Rightarrow> string + 'n jsobject" where
  "assign k r acc = (case r of Inl e \<Rightarrow> Inl e | Inr v \<Rightarrow> Inr (AList.update k v acc))"

definition assignSub ::
  "string \<Rightarrow> string \<Rightarrow> string + 'n jsval \<Rightarrow> 'n jsobject \<Rightarrow> string + 'n jsobject" where
  "assignSub k sub r acc = (case r of Inl e \<Rightarrow> Inl e | Inr v \<Rightarrow> Inr (setSubKey k sub v acc))"

text \<open>The callback of the \<^verbatim>\<open>reduce\<close> in \<^verbatim>\<open>validateAndParseOverrides\<close>: one override string
  merged into the accumulator, or the message of the error thrown.\<close>

definition parseOverride ::
  "(string \<Rightarrow> 'n option) \<Rightarrow> string list \<Rightarrow> 'n jsobject \<Rightarrow> string \<Rightarrow> string + 'n jsobject" where
  "parseOverride Number enumValues acc override =
     (let v = overrideValue override;
          key = overrideKey override;
          subKey = overrideSubKey override;
          parse = parseOverrideValue Number enumValues v
      in
      if key \<in> set [''defaultStepTimeout'', ''pollingTimeout'', ''testTimeout''] then
        assign key (parse ''number'') acc
      else if key \<in> set [''allowInsecureCertificates'', ''followRedirects''] then
        assign key (parse ''boolean'') acc
      else if key \<in> set [''body'', ''bodyType'', ''startUrl'', ''startUrlSubstitutionRegex''] then
        assign key (parse ''string'') acc
      else if key \<in> set [''deviceIds'', ''locations'', ''resourceUrlSubstitutionRegexes''] then
        assign key (parse ''string[]'') acc
      else if key = ''executionRule'' then
        assign key (parse ''ExecutionRule'') acc
      else if key = ''retry'' then
        (case subKey of
           Some sub \<Rightarrow>
             if sub \<in> set [''count'', ''interval'']
             then assignSub ''retry'' sub (parse ''number'') acc
             else Inl (''Invalid subkey for '' @ key)
         | None \<Rightarrow> Inl (''Invalid subkey for '' @ key))
      else if key = ''basicAuth'' then
        (case subKey of
           Some sub \<Rightarrow>
             if sub \<in> set [''username'', ''password'']
             then assignSub ''basicAuth'' sub (parse ''string'') acc
             else Inl (''Invalid subkey for '' @ key)
         | None \<Rightarrow> Inl (''Invalid subkey for '' @ key))
      else if key = ''cookies'' then
        (case subKey of
           Some sub \<Rightarrow>
             if sub = [] then assignSub ''cookies'' ''value'' (parse ''string'') acc
             else if sub = ''append'' then assignSub ''cookies'' ''append'' (parse ''boolean'') acc
             else Inl (''The path '' @ [CHR 0x22] @ key @ ''.'' @ sub @ [CHR 0x22]
                       @ '' is invalid. Did you mean `--override cookies=...`?'')
         | None \<Rightarrow> assignSub ''cookies'' ''value'' (parse ''string'') acc)
      else if key \<in> set [''headers'', ''variables''] then
        (case subKey of
           Some sub \<Rightarrow>
             if sub = [] then Inl (''No subkey found for '' @ key)
             else Inr (setSubKey key sub (JStr v) acc)
         | None \<Rightarrow> Inl (''No subkey found for '' @ key))
      else
        (if levenshtein (closestKey key) key > 5
         then Inl (''Invalid key: '' @ key)
         else Inl (''Invalid key: '' @ key @ ''. Did you mean: '' @ closestKey key @ ''?'')))"

fun reduceOverrides ::
  "(string \<Rightarrow> 'n option) \<Rightarrow> string list \<Rightarrow> 'n jsobject \<Rightarrow> string list \<Rightarrow> string + 'n jsobject" where
  "reduceOverrides Number enumValues acc [] = Inr acc"
| "reduceOverrides Number enumValues acc (override # rest) =
     (case parseOverride Number enumValues acc override of
        Inl e \<Rightarrow> Inl e
      | Inr acc' \<Rightarrow> reduceOverrides Number enumValues acc' rest)"

definition validateAndParseOverrides ::
  "(string \<Rightarrow> 'n option) \<Rightarrow> string list \<Rightarrow> string list option \<Rightarrow> string + 'n jsobject" where
  "validateAndParseOverrides Number enumValues overrides =
     (case overrides of
        None \<Rightarrow> Inr []
      | Some os \<Rightarrow> reduceOverrides Number enumValues [] os)"

section \<open>The synthetics run (\<^verbatim>\<open>run-tests-lib\<close>)\<close>

subsection \<open>Data\<close>

text \<open>
  The interfaces (\<^verbatim>\<open>TriggerConfig\<close>, \<^verbatim>\<open>RunTestsCommandConfig\<close>, \<^verbatim>\<open>Trigger\<close>, \<^verbatim>\<open>Test\<close>,
  \<^verbatim>\<open>TestPayload\<close>) are declared in \<^verbatim>\<open>interfaces\<close>; the records hold the fields that
  \<^verbatim>\<open>run-tests-lib\<close> reads and writes. An optional field is an \<^typ>\<open>'a option\<close>. A number
  of the configuration is a count of milliseconds, an \<^typ>\<open>int\<close>.
\<close>

text \<open>An override set is a mapping from option names to values.\<close>

type_synonym overrides = "string \<rightharpoonup> int jsval"

text \<open>\<open>suite\<close> is \<^const>\<open>None\<close> when the object has no own property \<^verbatim>\<open>suite\<close>,
  \<open>Some None\<close> when it has one that is \<^verbatim>\<open>undefined\<close>: a spread copies it all the same.\<close>

record triggerConfig =
  test_id :: string
  suite :: "string option option"
  testOverrides :: "overrides option"

record config =
  batchTimeout :: "int option"
  pollingTimeout :: "int option"
  defaultTestOverrides :: "overrides option"
  publicIds :: "string list"
  testSearchQuery :: "string option"
  failOnMissingTests :: "bool option"
  tunnel :: "bool option"
  selectiveRerun :: "bool option"

record test =
  public_id :: string

record testPayload =
  payload_public_id :: string
  payload_tunnel :: "string option"

record trigger =
  batch_id :: string
  selective_rerun_rate_limited :: "bool option"

record 's testsToTrigger =
  initialSummary :: 's
  overriddenTestsToTrigger :: "testPayload list"
  tests :: "test list"

record ('r, 's) executed =
  results :: "'r list"
  summary_initial :: 's
  summary_batchId :: string

text \<open>
  A value caught by a \<^verbatim>\<open>catch\<close>: its \<^verbatim>\<open>message\<close>, what \<^verbatim>\<open>isForbiddenError\<close> (of \<^verbatim>\<open>api\<close>)
  answers on it, and whether it is an instance of \<^verbatim>\<open>CiError\<close> and of
  \<^verbatim>\<open>BatchTimeoutRunawayError\<close> (classes of \<^verbatim>\<open>errors\<close>).
\<close>

record err =
  message :: string
  isForbiddenError :: bool
  instanceofCiError :: bool
  instanceofBatchTimeoutRunawayError :: bool

datatype code =
    AUTHORIZATION_ERROR
  | UNAVAILABLE_TEST_CONFIG
  | UNAVAILABLE_TUNNEL_CONFIG
  | TUNNEL_START_FAILED
  | TRIGGER_TESTS_FAILED
  | POLL_RESULTS_FAILED
  | NO_TESTS_TO_RUN

text \<open>What \<^verbatim>\<open>executeTests\<close> throws: \<^verbatim>\<open>new CiError(code)\<close>, \<^verbatim>\<open>new CriticalError(code, message)\<close>,
  or the caught value itself (\<^verbatim>\<open>throw error\<close>).\<close>

datatype thrown =
    CiError code
  | CriticalError code string
  | Rethrown err

text \<open>\<^verbatim>\<open>e instanceof BatchTimeoutRunawayError\<close> in a caller of \<^verbatim>\<open>executeTests\<close>: an object made
  by \<^verbatim>\<open>new CiError\<close> or \<^verbatim>\<open>new CriticalError\<close> is not one.\<close>

fun thrownInstanceofBatchTimeoutRunawayError :: "thrown \<Rightarrow> bool" where
  "thrownInstanceofBatchTimeoutRunawayError (Rethrown e) = instanceofBatchTimeoutRunawayError e"
| "thrownInstanceofBatchTimeoutRunawayError (CriticalError c m) = False"
| "thrownInstanceofBatchTimeoutRunawayError (CiError c) = False"

text \<open>The three ways lines 128 to 140 go: a throw before \<^verbatim>\<open>tunnel\<close> is assigned
  (\<^verbatim>\<open>getProxyAgent\<close>, \<^verbatim>\<open>getTunnelReporter\<close>, the constructor), \<^verbatim>\<open>tunnel.start()\<close> rejecting, or
  \<^verbatim>\<open>tunnel.start()\<close> returning the connection info.\<close>

datatype tunnelSetup =
    TunnelNotCreated err
  | TunnelStartRejected err
  | TunnelStarted string

text \<open>
  The collaborators (\<^verbatim>\<open>getTestConfigs\<close>, \<^verbatim>\<open>getTestsFromSearchQuery\<close>, \<^verbatim>\<open>getTestsToTrigger\<close>,
  \<^verbatim>\<open>api.getTunnelPresignedURL\<close>, \<^verbatim>\<open>Tunnel\<close>, \<^verbatim>\<open>runTests\<close>, \<^verbatim>\<open>waitForResults\<close>) live in other
  modules. Each is awaited at most once in a run, so the environment gives the outcome of
  each call: the value it resolves to, or on the left the value it throws.
\<close>

record ('r, 's) env =
  getTestConfigs :: "err + triggerConfig list"
  getTestsFromSearchQuery :: "err + triggerConfig list"
  getTestsToTrigger :: "err + 's testsToTrigger"
  getTunnelPresignedURL :: "err + string"
  tunnelSetup :: tunnelSetup
  runTests :: "err + trigger"
  waitForResults :: "err + 'r list"

text \<open>The result of \<^verbatim>\<open>Math.max\<close>: \<^verbatim>\<open>-Infinity\<close> when it is given no argument.\<close>

datatype number = MinusInfinity | Num int

text \<open>The calls that a run makes on its collaborators, in order, with the arguments that
  matter; \<^verbatim>\<open>reporter.error\<close>, \<^verbatim>\<open>tunnel.start\<close> and \<^verbatim>\<open>tunnel.stop\<close> among them.\<close>

datatype event =
    GetTestsToTrigger "triggerConfig list" bool "bool option" "bool option"
  | GetTunnelPresignedURL "string list"
  | TunnelStart
  | TunnelStop
  | RunTests "testPayload list" "bool option" "int option"
  | ReporterError string
  | WaitForResults trigger "test list" number bool

text \<open>The variables a run mutates: \<^verbatim>\<open>tunnel\<close> (the pre-signed URL the \<^verbatim>\<open>Tunnel\<close> was made with,
  once it is assigned) and the calls made so far.\<close>

record state =
  tunnel_var :: "string option"
  trace :: "event list"

subsection \<open>\<^verbatim>\<open>getTriggerConfigs\<close>\<close>

text \<open>\<^verbatim>\<open>{...a, ...b}\<close>: the properties of \<open>a\<close> with those of \<open>b\<close> assigned over them;
  spreading \<^verbatim>\<open>undefined\<close> adds nothing.\<close>

definition spread :: "overrides \<Rightarrow> overrides \<Rightarrow> overrides" where
  "spread a b = a ++ b"

definition ownProperties :: "overrides option \<Rightarrow> overrides" where
  "ownProperties obj = (case obj of None \<Rightarrow> Map.empty | Some ps \<Rightarrow> ps)"

text \<open>\<^verbatim>\<open>xs.findIndex(P)\<close>, \<^const>\<open>None\<close> for \<^verbatim>\<open>-1\<close>.\<close>

fun findIndex :: "('a \<Rightarrow> bool) \<Rightarrow> 'a list \<Rightarrow> nat option" where
  "findIndex P [] = None"
| "findIndex P (x # xs) = (if P x then Some 0 else map_option Suc (findIndex P xs))"

text \<open>Lines 215 to 219 and 221 to 225: the first test with the id, spliced out of the list
  (\<^verbatim>\<open>xs.splice(i, 1)[0]\<close>), and the list that is left.\<close>

definition spliceMatching ::
  "string \<Rightarrow> triggerConfig list \<Rightarrow> triggerConfig option \<times> triggerConfig list" where
  "spliceMatching i ts =
     (case findIndex (\<lambda>t. test_id t = i) ts of
        None \<Rightarrow> (None, ts)
      | Some k \<Rightarrow> (Some (ts ! k), take k ts @ drop (Suc k) ts))"

text \<open>The object literal of lines 227 to 235.\<close>

definition makeTriggerConfig ::
  "overrides option \<Rightarrow> string \<Rightarrow> triggerConfig option \<Rightarrow> triggerConfig option \<Rightarrow> triggerConfig" where
  "makeTriggerConfig defaultTestConfigOverrides i testFromSearchQuery testFromTestConfigs =
     \<lparr> test_id = i,
       suite = (case Option.bind testFromTestConfigs suite of
                  Some s \<Rightarrow> Some s
                | None \<Rightarrow> Option.bind testFromSearchQuery suite),
       testOverrides =
         Some (spread (ownProperties defaultTestConfigOverrides)
                      (ownProperties (Option.bind testFromTestConfigs testOverrides))) \<rparr>"

text \<open>The \<^verbatim>\<open>map\<close> over the ids; its callback shrinks the two lists of tests as it goes.\<close>

fun mapTestIds ::
  "overrides option \<Rightarrow> string list \<Rightarrow> triggerConfig list \<Rightarrow> triggerConfig list
     \<Rightarrow> triggerConfig list" where
  "mapTestIds d [] testsFromSearchQuery testsFromTestConfigs = []"
| "mapTestIds d (i # ids) testsFromSearchQuery testsFromTestConfigs =
     (case spliceMatching i testsFromSearchQuery of
        (testFromSearchQuery, testsFromSearchQuery') \<Rightarrow>
          (case spliceMatching i testsFromTestConfigs of
             (testFromTestConfigs, testsFromTestConfigs') \<Rightarrow>
               makeTriggerConfig d i testFromSearchQuery testFromTestConfigs
                 # mapTestIds d ids testsFromSearchQuery' testsFromTestConfigs'))"

text \<open>Line 210: \<^verbatim>\<open>[cli, searchQuery, testConfigs].find((ids) => ids.length > 0) ?? []\<close>.\<close>

definition testIdsToTrigger :: "string list \<Rightarrow> string list \<Rightarrow> string list \<Rightarrow> string list" where
  "testIdsToTrigger testIdsFromCli testIdsFromSearchQuery testIdsFromTestConfigs =
     (case List.find (\<lambda>ids. length ids > 0)
             [testIdsFromCli, testIdsFromSearchQuery, testIdsFromTestConfigs] of
        Some ids \<Rightarrow> ids
      | None \<Rightarrow> [])"

definition getTriggerConfigs :: "('r, 's) env \<Rightarrow> config \<Rightarrow> err + triggerConfig list" where
  "getTriggerConfigs env config =
     (case getTestConfigs env of
        Inl error \<Rightarrow> Inl error
      | Inr testsFromTestConfigs \<Rightarrow>
          (case getTestsFromSearchQuery env of
             Inl error \<Rightarrow> Inl error
           | Inr testsFromSearchQuery \<Rightarrow>
               Inr (mapTestIds (defaultTestOverrides config)
                      (testIdsToTrigger (publicIds config)
                         (map test_id testsFromSearchQuery)
                         (map test_id testsFromTestConfigs))
                      testsFromSearchQuery testsFromTestConfigs)))"

subsection \<open>The poll deadline\<close>

text \<open>\<^verbatim>\<open>a || b\<close> on optional numbers: \<^verbatim>\<open>undefined\<close> and \<^verbatim>\<open>0\<close> are falsy.\<close>

definition jsOr :: "int option \<Rightarrow> int option \<Rightarrow> int option" where
  "jsOr a b = (case a of None \<Rightarrow> b | Some n \<Rightarrow> if n = 0 then b else Some n)"

definition jsOrNumber :: "int option \<Rightarrow> int \<Rightarrow> int" where
  "jsOrNumber a d = (case a of None \<Rightarrow> d | Some n \<Rightarrow> if n = 0 then d else n)"

text \<open>\<^verbatim>\<open>t.testOverrides?.pollingTimeout\<close>, a \<^verbatim>\<open>number\<close> or \<^verbatim>\<open>undefined\<close> by its type.\<close>

definition overridePollingTimeout :: "triggerConfig \<Rightarrow> int option" where
  "overridePollingTimeout t =
     (case testOverrides t of
        None \<Rightarrow> None
      | Some ov \<Rightarrow> (case ov ''pollingTimeout'' of Some (JNum n) \<Rightarrow> Some n | _ \<Rightarrow> None))"

fun Math_max :: "int list \<Rightarrow> number" where
  "Math_max [] = MinusInfinity"
| "Math_max (x # xs) = (case Math_max xs of MinusInfinity \<Rightarrow> Num x | Num m \<Rightarrow> Num (max x m))"

text \<open>Lines 157 to 161. \<open>DEFAULT_BATCH_TIMEOUT\<close> is a constant of \<^verbatim>\<open>run-tests-command\<close>,
  a parameter here.\<close>

definition maxPollingTimeout :: "int \<Rightarrow> config \<Rightarrow> triggerConfig list \<Rightarrow> number" where
  "maxPollingTimeout DEFAULT_BATCH_TIMEOUT config triggerConfigs =
     Math_max (map (\<lambda>t. jsOrNumber
                             (jsOr (jsOr (batchTimeout config) (overridePollingTimeout t))
                                (pollingTimeout config))
                             DEFAULT_BATCH_TIMEOUT)
                   triggerConfigs)"

subsection \<open>\<^verbatim>\<open>executeTests\<close>\<close>

definition emit :: "event \<Rightarrow> state \<Rightarrow> state" where
  "emit e s = s\<lparr>trace := trace s @ [e]\<rparr>"

definition truthy :: "bool option \<Rightarrow> bool" where
  "truthy b = (b = Some True)"

text \<open>Lines 61 to 65. \<^verbatim>\<open>tunnel.stop()\<close>, like \<^verbatim>\<open>reporter.error\<close>, is a call that returns:
  the model records that it was made.\<close>

definition stopTunnel :: "state \<Rightarrow> state" where
  "stopTunnel s = (case tunnel_var s of Some t \<Rightarrow> emit TunnelStop s | None \<Rightarrow> s)"

text \<open>Lines 155 to 188: the \<^verbatim>\<open>try\<close> around \<^verbatim>\<open>waitForResults\<close>, its \<^verbatim>\<open>catch\<close> and its
  \<^verbatim>\<open>finally\<close>.\<close>

definition pollResults ::
  "int \<Rightarrow> ('r, 's) env \<Rightarrow> config \<Rightarrow> triggerConfig list \<Rightarrow> 's testsToTrigger \<Rightarrow> trigger
     \<Rightarrow> state \<Rightarrow> state \<times> (thrown + ('r, 's) executed)" where
  "pollResults DEFAULT_BATCH_TIMEOUT env config triggerConfigs r trig s =
     (let s1 = emit (WaitForResults trig (tests r)
                       (maxPollingTimeout DEFAULT_BATCH_TIMEOUT config triggerConfigs)
                       (tunnel_var s \<noteq> None)) s;
          outcome =
            (case waitForResults env of
               Inr rs \<Rightarrow>
                 Inr \<lparr> results = rs, summary_initial = initialSummary r,
                       summary_batchId = batch_id trig \<rparr>
             | Inl error \<Rightarrow>
                 if instanceofBatchTimeoutRunawayError error then Inl (Rethrown error)
                 else Inl (CriticalError POLL_RESULTS_FAILED (message error)))
      in (stopTunnel s1, outcome))"

text \<open>Lines 143 to 153, then the poll.\<close>

definition triggerTests ::
  "int \<Rightarrow> ('r, 's) env \<Rightarrow> config \<Rightarrow> triggerConfig list \<Rightarrow> 's testsToTrigger
     \<Rightarrow> state \<Rightarrow> state \<times> (thrown + ('r, 's) executed)" where
  "triggerTests DEFAULT_BATCH_TIMEOUT env config triggerConfigs r s =
     (let s1 = emit (RunTests (overriddenTestsToTrigger r) (selectiveRerun config)
                       (batchTimeout config)) s
      in case runTests env of
           Inl error \<Rightarrow>
             (stopTunnel s1, Inl (CriticalError TRIGGER_TESTS_FAILED (message error)))
         | Inr trig \<Rightarrow>
             pollResults DEFAULT_BATCH_TIMEOUT env config triggerConfigs r trig
               (if truthy (selective_rerun_rate_limited trig)
                then emit (ReporterError
                       (''The selective re-run feature was rate-limited. All tests will be re-run.''
                        @ [CHR 0x0A, CHR 0x0A])) s1
                else s1))"

text \<open>Lines 117 to 141, then the trigger.\<close>

definition openTunnel ::
  "int \<Rightarrow> ('r, 's) env \<Rightarrow> config \<Rightarrow> triggerConfig list \<Rightarrow> 's testsToTrigger
     \<Rightarrow> state \<Rightarrow> state \<times> (thrown + ('r, 's) executed)" where
  "openTunnel DEFAULT_BATCH_TIMEOUT env config triggerConfigs r s =
     (if truthy (tunnel config) then
        (let s1 = emit (GetTunnelPresignedURL (map public_id (tests r))) s
         in case getTunnelPresignedURL env of
              Inl error \<Rightarrow> (s1, Inl (CriticalError UNAVAILABLE_TUNNEL_CONFIG (message error)))
            | Inr presignedURL \<Rightarrow>
                (case tunnelSetup env of
                   TunnelNotCreated error \<Rightarrow>
                     (stopTunnel s1, Inl (CriticalError TUNNEL_START_FAILED (message error)))
                 | TunnelStartRejected error \<Rightarrow>
                     (stopTunnel (emit TunnelStart (s1\<lparr>tunnel_var := Some presignedURL\<rparr>)),
                      Inl (CriticalError TUNNEL_START_FAILED (message error)))
                 | TunnelStarted tunnelInfo \<Rightarrow>
                     triggerTests DEFAULT_BATCH_TIMEOUT env config triggerConfigs
                       (r\<lparr>overriddenTestsToTrigger :=
                            map (\<lambda>testToTrigger. testToTrigger\<lparr>payload_tunnel := Some tunnelInfo\<rparr>)
                              (overriddenTestsToTrigger r)\<rparr>)
                       (emit TunnelStart (s1\<lparr>tunnel_var := Some presignedURL\<rparr>))))
      else triggerTests DEFAULT_BATCH_TIMEOUT env config triggerConfigs r s)"

text \<open>
  The helpers of \<^verbatim>\<open>compatibility\<close> that lines 68 to 74 call are declared in another module;
  they are parameters of the model, functions of the configuration. The warnings they give to
  the reporter are theirs and are not in the trace.
\<close>

record compatibility =
  replaceGlobalWithDefaultTestOverrides :: "config \<Rightarrow> config"
  moveLocationsToTestOverrides :: "config \<Rightarrow> config"
  replacePollingTimeoutWithBatchTimeout :: "config \<Rightarrow> int option"

text \<open>Lines 68 to 74: the configuration that the rest of \<^verbatim>\<open>executeTests\<close> reads. Its
  \<^verbatim>\<open>batchTimeout\<close> is what \<^verbatim>\<open>replacePollingTimeoutWithBatchTimeout\<close> returns.\<close>

definition normalizeConfig :: "compatibility \<Rightarrow> config \<Rightarrow> config" where
  "normalizeConfig helpers config =
     (let config1 = replaceGlobalWithDefaultTestOverrides helpers config;
          config2 = moveLocationsToTestOverrides helpers config1
      in config2\<lparr>batchTimeout := replacePollingTimeoutWithBatchTimeout helpers config2\<rparr>)"

text \<open>
  \<^verbatim>\<open>executeTests\<close>, from the caller's configuration \<open>config\<close>. The result is the final state
  and the value returned, or on the left the value thrown.
\<close>

definition executeTests ::
  "int \<Rightarrow> compatibility \<Rightarrow> ('r, 's) env \<Rightarrow> config
     \<Rightarrow> state \<times> (thrown + ('r, 's) executed)" where
  "executeTests DEFAULT_BATCH_TIMEOUT helpers env callerConfig =
     (let config = normalizeConfig helpers callerConfig;
          s0 = \<lparr> tunnel_var = None, trace = [] \<rparr>
      in case getTriggerConfigs env config of
           Inl error \<Rightarrow>
             (s0, Inl (CriticalError
                         (if isForbiddenError error then AUTHORIZATION_ERROR
                          else UNAVAILABLE_TEST_CONFIG)
                         (message error)))
         | Inr triggerConfigs \<Rightarrow>
             if length triggerConfigs = 0 then (s0, Inl (CiError NO_TESTS_TO_RUN))
             else
               (let triggerFromSearch =
                      (case testSearchQuery config of None \<Rightarrow> False | Some q \<Rightarrow> q \<noteq> []);
                    s1 = emit (GetTestsToTrigger triggerConfigs triggerFromSearch
                                 (failOnMissingTests config) (tunnel config)) s0
                in case getTestsToTrigger env of
                     Inl error \<Rightarrow>
                       if instanceofCiError error then (s1, Inl (Rethrown error))
                       else (s1, Inl (CriticalError
                                        (if isForbiddenError error then AUTHORIZATION_ERROR
                                         else UNAVAILABLE_TEST_CONFIG)
                                        (message error)))
                   | Inr r \<Rightarrow>
                       if length (tests r) = 0 then (s1, Inl (CiError NO_TESTS_TO_RUN))
                       else openTunnel DEFAULT_BATCH_TIMEOUT env config triggerConfigs r s1))"

subsection \<open>What a run called\<close>


fun isRunTests :: "event \<Rightarrow> bool" where
  "isRunTests (RunTests p s b) = True"
| "isRunTests e = False"

fun isWaitForResults :: "event \<Rightarrow> bool" where
  "isWaitForResults (WaitForResults tg ts bt tn) = True"
| "isWaitForResults e = False"


definition submitted :: "state \<Rightarrow> bool" where
  "submitted s = list_ex isRunTests (trace s)"

definition polled :: "state \<Rightarrow> bool" where
  "polled s = list_ex isWaitForResults (trace s)"

definition rateLimitedMessage :: string where
  "rateLimitedMessage =
     ''The selective re-run feature was rate-limited. All tests will be re-run.''
     @ [CHR 0x0A, CHR 0x0A]"

section \<open>The run as a trace and an outcome\<close>

text \<open>
  The same run, written without the state: the list of calls each part of \<open>executeTests\<close>
  adds, and the value it returns or throws. They are proved equal to the state-passing
  definitions below (\<open>executeTests_eq\<close>) and carry the proofs about a whole run.
\<close>

definition stops :: "string option \<Rightarrow> event list" where
  "stops tv = (if tv = None then [] else [TunnelStop])"

definition pollOutcome ::
  "('r, 's) env \<Rightarrow> 's testsToTrigger \<Rightarrow> trigger \<Rightarrow> thrown + ('r, 's) executed" where
  "pollOutcome env r trig =
     (case waitForResults env of
        Inr rs \<Rightarrow>
          Inr \<lparr> results = rs, summary_initial = initialSummary r,
                summary_batchId = batch_id trig \<rparr>
      | Inl error \<Rightarrow>
          if instanceofBatchTimeoutRunawayError error then Inl (Rethrown error)
          else Inl (CriticalError POLL_RESULTS_FAILED (message error)))"

definition pollTrace ::
  "int \<Rightarrow> config \<Rightarrow> triggerConfig list \<Rightarrow> 's testsToTrigger \<Rightarrow> trigger \<Rightarrow> string option
     \<Rightarrow> event list" where
  "pollTrace D config tcs r trig tv =
     WaitForResults trig (tests r) (maxPollingTimeout D config tcs) (tv \<noteq> None) # stops tv"

definition triggerOutcome ::
  "('r, 's) env \<Rightarrow> 's testsToTrigger \<Rightarrow> thrown + ('r, 's) executed" where
  "triggerOutcome env r =
     (case runTests env of
        Inl error \<Rightarrow> Inl (CriticalError TRIGGER_TESTS_FAILED (message error))
      | Inr trig \<Rightarrow> pollOutcome env r trig)"

definition triggerTrace ::
  "int \<Rightarrow> ('r, 's) env \<Rightarrow> config \<Rightarrow> triggerConfig list \<Rightarrow> 's testsToTrigger \<Rightarrow> string option
     \<Rightarrow> event list" where
  "triggerTrace D env config tcs r tv =
     RunTests (overriddenTestsToTrigger r) (selectiveRerun config) (batchTimeout config) #
     (case runTests env of
        Inl error \<Rightarrow> stops tv
      | Inr trig \<Rightarrow>
          (if truthy (selective_rerun_rate_limited trig)
           then [ReporterError rateLimitedMessage] else [])
          @ pollTrace D config tcs r trig tv)"

definition withTunnel :: "string \<Rightarrow> 's testsToTrigger \<Rightarrow> 's testsToTrigger" where
  "withTunnel tunnelInfo r =
     r\<lparr>overriddenTestsToTrigger :=
         map (\<lambda>testToTrigger. testToTrigger\<lparr>payload_tunnel := Some tunnelInfo\<rparr>)
           (overriddenTestsToTrigger r)\<rparr>"

definition tunnelOutcome ::
  "('r, 's) env \<Rightarrow> config \<Rightarrow> 's testsToTrigger \<Rightarrow> thrown + ('r, 's) executed" where
  "tunnelOutcome env config r =
     (if truthy (tunnel config) then
        (case getTunnelPresignedURL env of
           Inl error \<Rightarrow> Inl (CriticalError UNAVAILABLE_TUNNEL_CONFIG (message error))
         | Inr url \<Rightarrow>
             (case tunnelSetup env of
                TunnelNotCreated error \<Rightarrow>
                  Inl (CriticalError TUNNEL_START_FAILED (message error))
              | TunnelStartRejected error \<Rightarrow>
                  Inl (CriticalError TUNNEL_START_FAILED (message error))
              | TunnelStarted tunnelInfo \<Rightarrow> triggerOutcome env (withTunnel tunnelInfo r)))
      else triggerOutcome env r)"

definition tunnelTrace ::
  "int \<Rightarrow> ('r, 's) env \<Rightarrow> config \<Rightarrow> triggerConfig list \<Rightarrow> 's testsToTrigger \<Rightarrow> event list" where
  "tunnelTrace D env config tcs r =
     (if truthy (tunnel config) then
        GetTunnelPresignedURL (map public_id (tests r)) #
        (case getTunnelPresignedURL env of
           Inl error \<Rightarrow> []
         | Inr url \<Rightarrow>
             (case tunnelSetup env of
                TunnelNotCreated error \<Rightarrow> []
              | TunnelStartRejected error \<Rightarrow> [TunnelStart, TunnelStop]
              | TunnelStarted tunnelInfo \<Rightarrow>
                  TunnelStart
                    # triggerTrace D env config tcs (withTunnel tunnelInfo r) (Some url)))
      else triggerTrace D env config tcs r None)"

definition runOutcome :: "('r, 's) env \<Rightarrow> config \<Rightarrow> thrown + ('r, 's) executed" where
  "runOutcome env config =
     (case getTriggerConfigs env config of
        Inl error \<Rightarrow>
          Inl (CriticalError
                 (if isForbiddenError error then AUTHORIZATION_ERROR
                  else UNAVAILABLE_TEST_CONFIG)
                 (message error))
      | Inr tcs \<Rightarrow>
          if tcs = [] then Inl (CiError NO_TESTS_TO_RUN)
          else
            (case getTestsToTrigger env of
               Inl error \<Rightarrow>
                 if instanceofCiError error then Inl (Rethrown error)
                 else Inl (CriticalError
                             (if isForbiddenError error then AUTHORIZATION_ERROR
                              else UNAVAILABLE_TEST_CONFIG)
                             (message error))
             | Inr r \<Rightarrow>
                 if tests r = [] then Inl (CiError NO_TESTS_TO_RUN)
                 else tunnelOutcome env config r))"

definition runTrace :: "int \<Rightarrow> ('r, 's) env \<Rightarrow> config \<Rightarrow> event list" where
  "runTrace D env config =
     (case getTriggerConfigs env config of
        Inl error \<Rightarrow> []
      | Inr tcs \<Rightarrow>
          if tcs = [] then []
          else
            GetTestsToTrigger tcs
              (case testSearchQuery config of None \<Rightarrow> False | Some q \<Rightarrow> q \<noteq> [])
              (failOnMissingTests config) (tunnel config) #
            (case getTestsToTrigger env of
               Inl error \<Rightarrow> []
             | Inr r \<Rightarrow> if tests r = [] then [] else tunnelTrace D env config tcs r))"

section \<open>The claims' own notions\<close>

text \<open>\<open>v\<close> is the lower-case ASCII word \<open>w\<close> up to case: each character of \<open>v\<close> is the
  character of \<open>w\<close> at its place or its capital, 32 code units below.\<close>

definition equalsIgnoringCase :: "string \<Rightarrow> string \<Rightarrow> bool" where
  "equalsIgnoringCase v w =
     list_all2 (\<lambda>c d. c = d \<or> (of_char c :: nat) + 32 = of_char d) v w"

text \<open>The entry of the test-config files that matches the \<open>i\<close>-th id of the list: entries are
  consumed as they are matched, so the \<open>k\<close>-th occurrence of an id in the list matches the
  \<open>k\<close>-th entry with that id, and none when the entries with that id have run out.\<close>

definition matchingEntry :: "string list \<Rightarrow> triggerConfig list \<Rightarrow> nat \<Rightarrow> triggerConfig option" where
  "matchingEntry ids ts i =
     (let same = filter (\<lambda>t. test_id t = ids ! i) ts;
          k = count_list (take i ids) (ids ! i)
      in if k < length same then Some (same ! k) else None)"

text \<open>The deadline as the specification words it: the greatest, over the trigger configs, of
  the config's own override when it has one and of the global default \<open>g\<close> otherwise.\<close>

definition claimedDeadline :: "int \<Rightarrow> triggerConfig list \<Rightarrow> int" where
  "claimedDeadline g tcs =
     Max (set (map (\<lambda>t. case overridePollingTimeout t of Some n \<Rightarrow> n | None \<Rightarrow> g) tcs))"

text \<open>The deadline with the precedence of the code, on the configuration \<open>config\<close> that
  lines 68 to 74 leave: a global \<^verbatim>\<open>batchTimeout\<close> that is set and not zero is the deadline; otherwise the greatest, over the trigger configs, of the config's
  own \<^verbatim>\<open>pollingTimeout\<close> override when it is set and not zero, and otherwise of the global
  \<^verbatim>\<open>pollingTimeout\<close> when that is set and not zero, and the default constant at last.\<close>

definition globalDefault :: "int \<Rightarrow> config \<Rightarrow> int" where
  "globalDefault D config =
     (case pollingTimeout config of None \<Rightarrow> D | Some p \<Rightarrow> if p = 0 then D else p)"

definition widestDeadline :: "int \<Rightarrow> config \<Rightarrow> triggerConfig list \<Rightarrow> int" where
  "widestDeadline D config tcs =
     Max (set (map (\<lambda>t. case overridePollingTimeout t of
                           None \<Rightarrow> globalDefault D config
                         | Some n \<Rightarrow> if n = 0 then globalDefault D config else n) tcs))"

definition effectiveDeadline :: "int \<Rightarrow> config \<Rightarrow> triggerConfig list \<Rightarrow> int" where
  "effectiveDeadline D config tcs =
     (case batchTimeout config of
        None \<Rightarrow> widestDeadline D config tcs
      | Some b \<Rightarrow> if b = 0 then widestDeadline D config tcs else b)"

section \<open>Example runs\<close>

definition forbiddenError :: err where
  "forbiddenError =
     \<lparr> message = ''Forbidden'', isForbiddenError = True, instanceofCiError = False,
       instanceofBatchTimeoutRunawayError = False \<rparr>"

definition networkError :: err where
  "networkError =
     \<lparr> message = ''Network Error'', isForbiddenError = False, instanceofCiError = False,
       instanceofBatchTimeoutRunawayError = False \<rparr>"

definition timeoutError :: err where
  "timeoutError =
     \<lparr> message = ''The batch did not time out after the expected timeout period.'',
       isForbiddenError = False, instanceofCiError = True,
       instanceofBatchTimeoutRunawayError = True \<rparr>"

definition testA :: triggerConfig where
  "testA =
     \<lparr> test_id = ''aaa-aaa-aaa'', suite = Some (Some ''a.synthetics.json''),
       testOverrides = Some [''pollingTimeout'' \<mapsto> JNum 60, ''startUrl'' \<mapsto> JStr ''https://a''] \<rparr>"

definition testB :: triggerConfig where
  "testB =
     \<lparr> test_id = ''bbb-bbb-bbb'', suite = Some (Some ''b.synthetics.json''),
       testOverrides = Some [''pollingTimeout'' \<mapsto> JNum 120] \<rparr>"

definition exampleConfig :: config where
  "exampleConfig =
     \<lparr> batchTimeout = None, pollingTimeout = None,
       defaultTestOverrides = Some [''startUrl'' \<mapsto> JStr ''https://default'', ''body'' \<mapsto> JStr ''{}''],
       publicIds = [], testSearchQuery = None, failOnMissingTests = None,
       tunnel = Some True, selectiveRerun = None \<rparr>"

text \<open>Helpers that leave the configuration as it is.\<close>

definition exampleCompat :: compatibility where
  "exampleCompat =
     \<lparr> replaceGlobalWithDefaultTestOverrides = (\<lambda>config. config),
       moveLocationsToTestOverrides = (\<lambda>config. config),
       replacePollingTimeoutWithBatchTimeout = batchTimeout \<rparr>"

text \<open>Helpers of which the last returns the deprecated global \<^verbatim>\<open>pollingTimeout\<close> when it is
  set, and the \<^verbatim>\<open>batchTimeout\<close> otherwise.\<close>

definition pollingFirstCompat :: compatibility where
  "pollingFirstCompat =
     \<lparr> replaceGlobalWithDefaultTestOverrides = (\<lambda>config. config),
       moveLocationsToTestOverrides = (\<lambda>config. config),
       replacePollingTimeoutWithBatchTimeout =
         (\<lambda>config. case pollingTimeout config of
                      None \<Rightarrow> batchTimeout config
                    | Some p \<Rightarrow> Some p) \<rparr>"

definition exampleTrigger :: trigger where
  "exampleTrigger = \<lparr> batch_id = ''batch-1'', selective_rerun_rate_limited = None \<rparr>"

definition exampleTests :: "nat testsToTrigger" where
  "exampleTests =
     \<lparr> initialSummary = 0,
       overriddenTestsToTrigger =
         [\<lparr> payload_public_id = ''aaa-aaa-aaa'', payload_tunnel = None \<rparr>,
          \<lparr> payload_public_id = ''bbb-bbb-bbb'', payload_tunnel = None \<rparr>],
       tests = [\<lparr> public_id = ''aaa-aaa-aaa'' \<rparr>, \<lparr> public_id = ''bbb-bbb-bbb'' \<rparr>] \<rparr>"

definition exampleEnv :: "(string, nat) env" where
  "exampleEnv =
     \<lparr> getTestConfigs = Inr [testA, testB],
       getTestsFromSearchQuery = Inr [],
       getTestsToTrigger = Inr exampleTests,
       getTunnelPresignedURL = Inr ''wss://tunnel'',
       tunnelSetup = TunnelStarted ''connection'',
       runTests = Inr exampleTrigger,
       waitForResults = Inr [''passed'', ''passed''] \<rparr>"

section \<open>The override resolver\<close>

subsection \<open>The edit distance\<close>

lemma lev_Nil2: "lev a [] = length a"
  by (cases a) simp_all

lemma length_sufs: "map length (sufs b) = rev [0..<Suc (length b)]"
  by (induction b) simp_all

lemma next_row_sufs: "next_row c b (map (lev a) (sufs b)) = map (lev (c # a)) (sufs b)"
proof (induction b)
  case Nil
  show ?case by (simp add: lev_Nil2)
next
  case (Cons d b)
  obtain s ss where ss: "sufs b = s # ss" and s: "s = b" by (cases b) simp_all
  from Cons.IH show ?case by (simp add: ss s)
qed

lemma lev_rows_sufs: "lev_rows a b = map (lev a) (sufs b)"
proof (induction a)
  case Nil
  have "map (lev []) (sufs b) = map length (sufs b)" by simp
  then show ?case by (simp add: length_sufs)
next
  case (Cons c a)
  then show ?case by (simp add: next_row_sufs)
qed

lemma levenshtein_lev: "levenshtein a b = lev a b"
  by (cases b) (simp_all add: levenshtein_def lev_rows_sufs)

subsection \<open>Unknown keys\<close>

lemma foldl_closest:
  "foldl (\<lambda>prev curr. if f curr < (f prev :: nat) then curr else prev) k ks \<in> set (k # ks) \<and>
   (\<forall>x \<in> set (k # ks). f (foldl (\<lambda>prev curr. if f curr < f prev then curr else prev) k ks) \<le> f x)"
proof (induction ks arbitrary: k)
  case Nil
  show ?case by simp
next
  case (Cons c cs)
  show ?case
  proof (cases "f c < f k")
    case True
    with Cons.IH [of c] show ?thesis by (auto intro: order_trans less_imp_le)
  next
    case False
    with Cons.IH [of k] show ?thesis by (auto intro: order_trans)
  qed
qed

lemma closestKey_props:
  "closestKey key \<in> set allOverrideKeys \<and>
   (\<forall>k \<in> set allOverrideKeys. levenshtein (closestKey key) key \<le> levenshtein k key)"
proof -
  obtain k ks where ks: "allOverrideKeys = k # ks"
    by (simp add: allOverrideKeys_def)
  have "closestKey key =
      foldl (\<lambda>prev curr. if levenshtein curr key < levenshtein prev key then curr else prev) k ks"
    unfolding closestKey_def ks by simp
  with foldl_closest [of "\<lambda>k. levenshtein k key" k ks] show ?thesis
    unfolding ks by simp
qed

lemma parseOverride_unknown:
  assumes "overrideKey override \<notin> set allOverrideKeys"
  shows "parseOverride Number enumValues acc override =
     (if levenshtein (closestKey (overrideKey override)) (overrideKey override) > 5
      then Inl (''Invalid key: '' @ overrideKey override)
      else Inl (''Invalid key: '' @ overrideKey override @ ''. Did you mean: ''
                @ closestKey (overrideKey override) @ ''?''))"
  using assms by (simp add: parseOverride_def allOverrideKeys_def Let_def)

lemma reduceOverrides_append:
  "reduceOverrides Number enumValues acc (pre @ rest) =
     (case reduceOverrides Number enumValues acc pre of
        Inl e \<Rightarrow> Inl e
      | Inr acc' \<Rightarrow> reduceOverrides Number enumValues acc' rest)"
  by (induction pre arbitrary: acc) (auto split: sum.splits)

lemma validate_first_failure:
  assumes "reduceOverrides Number enumValues [] before = Inr acc"
    and "parseOverride Number enumValues acc override = Inl e"
  shows "validateAndParseOverrides Number enumValues (Some (before @ override # after)) = Inl e"
  using assms by (simp add: validateAndParseOverrides_def reduceOverrides_append)

lemma reduceOverrides_body_example: "reduceOverrides Number enumValues [] [''body=x''] = Inr [(''body'', JStr ''x'')]"
  by (simp add: parseOverride_def overrideKey_def overrideRawKey_def overrideSubKey_def
        overrideValue_def matchOverride_def isLineTerminator_def parseOverrideValue_def
        assign_def trim_def isWhiteSpace_def)

lemmas override_parts =
  overrideKey_def overrideRawKey_def overrideSubKey_def overrideValue_def matchOverride_def
  isLineTerminator_def

text \<open>C6: an override whose top-level key is not one of \<open>allOverrideKeys\<close> makes the resolver
  fail. The message names the closest valid key, a key of the list at the least edit distance
  from the given key, when that distance is at most 5, and is the generic
  \<^verbatim>\<open>Invalid key\<close> message when the distance exceeds 5.\<close>

theorem unknown_key_names_closest_within_five:
  assumes "overrideKey override \<notin> set allOverrideKeys"
    and "reduceOverrides Number enumValues [] before = Inr acc"
  shows "closestKey (overrideKey override) \<in> set allOverrideKeys \<and>
         (\<forall>k \<in> set allOverrideKeys.
            lev (closestKey (overrideKey override)) (overrideKey override)
              \<le> lev k (overrideKey override)) \<and>
         validateAndParseOverrides Number enumValues (Some (before @ override # after)) =
           Inl (if lev (closestKey (overrideKey override)) (overrideKey override) \<le> 5
                then ''Invalid key: '' @ overrideKey override @ ''. Did you mean: ''
                     @ closestKey (overrideKey override) @ ''?''
                else ''Invalid key: '' @ overrideKey override)"
proof -
  let ?key = "overrideKey override"
  have "parseOverride Number enumValues acc override =
          Inl (if lev (closestKey ?key) ?key \<le> 5
               then ''Invalid key: '' @ ?key @ ''. Did you mean: '' @ closestKey ?key @ ''?''
               else ''Invalid key: '' @ ?key)"
    using parseOverride_unknown [OF assms(1), of Number enumValues acc]
    by (simp add: levenshtein_lev not_less [symmetric])
  from validate_first_failure [OF assms(2) this] closestKey_props [of ?key]
  show ?thesis by (simp add: levenshtein_lev)
qed

lemma closestKey_bod: "closestKey ''bod'' = ''body''"
  by (simp add: closestKey_def allOverrideKeys_def levenshtein_def)

lemma closestKey_zzzzzz: "closestKey ''zzzzzz'' = ''retry''"
  by (simp add: closestKey_def allOverrideKeys_def levenshtein_def)

theorem unknown_key_names_closest_within_five_witness:
  "overrideKey ''bod=1'' \<notin> set allOverrideKeys \<and>
   reduceOverrides (\<lambda>s. Some (0 :: int)) [''blocking''] [] [''body=x''] = Inr [(''body'', JStr ''x'')] \<and>
   validateAndParseOverrides (\<lambda>s. Some (0 :: int)) [''blocking''] (Some [''body=x'', ''bod=1''])
     = Inl ''Invalid key: bod. Did you mean: body?'' \<and>
   overrideKey ''zzzzzz=1'' \<notin> set allOverrideKeys \<and>
   validateAndParseOverrides (\<lambda>s. Some (0 :: int)) [''blocking''] (Some [''zzzzzz=1''])
     = Inl ''Invalid key: zzzzzz''"
proof -
  have k1: "overrideKey ''bod=1'' = ''bod''" and k2: "overrideKey ''zzzzzz=1'' = ''zzzzzz''"
    by (simp_all add: override_parts)
  have n1: "overrideKey ''bod=1'' \<notin> set allOverrideKeys"
    and n2: "overrideKey ''zzzzzz=1'' \<notin> set allOverrideKeys"
    unfolding k1 k2 by (simp_all add: allOverrideKeys_def)
  have pre: "reduceOverrides (\<lambda>s. Some (0 :: int)) [''blocking''] [] [''body=x'']
               = Inr [(''body'', JStr ''x'')]"
    by (rule reduceOverrides_body_example)
  have nil: "reduceOverrides (\<lambda>s. Some (0 :: int)) [''blocking''] [] [] = Inr []"
    by simp
  have d1: "lev ''body'' ''bod'' = 1" and d2: "lev ''retry'' ''zzzzzz'' = 6"
    unfolding levenshtein_lev [symmetric] by (simp_all add: levenshtein_def)
  from unknown_key_names_closest_within_five [OF n1 pre, of "[]"]
       unknown_key_names_closest_within_five [OF n2 nil, of "[]"] n1 n2 pre
  show ?thesis
    by (simp add: k1 k2 closestKey_bod closestKey_zzzzzz d1 d2)
qed

lemma closestKey_empty: "closestKey [] = ''body''"
  by (simp add: closestKey_def allOverrideKeys_def levenshtein_def)

lemma levenshtein_body_empty: "levenshtein ''body'' [] = 4"
  by (simp add: levenshtein_def)

lemma overrideKey_no_separator: "CHR ''='' \<notin> set override \<Longrightarrow> overrideKey override = []"
  by (simp add: override_parts)

lemma overrideKey_empty_key: "overrideKey (CHR ''='' # v) = []"
  by (simp add: override_parts)

lemma parseOverride_empty_key:
  assumes "overrideKey override = []"
  shows "parseOverride Number enumValues acc override = Inl ''Invalid key: . Did you mean: body?''"
proof -
  have "overrideKey override \<notin> set allOverrideKeys"
    unfolding assms by (simp add: allOverrideKeys_def)
  from parseOverride_unknown [OF this, of Number enumValues acc] show ?thesis
    by (simp add: assms closestKey_empty levenshtein_body_empty)
qed

text \<open>C9: an override string with no \<^verbatim>\<open>=\<close>, or with nothing before its first \<^verbatim>\<open>=\<close>, has the
  empty key; the resolver throws the invalid-key error for it (with the suggestion
  \<^verbatim>\<open>body\<close>, the closest key to the empty one), whatever came before it parsed to: the entry
  is neither skipped nor taken as a value.\<close>

theorem missing_separator_is_invalid_key:
  assumes "CHR ''='' \<notin> set override \<or> (\<exists>v. override = CHR ''='' # v)"
    and "reduceOverrides Number enumValues [] before = Inr acc"
  shows "overrideKey override = [] \<and>
         validateAndParseOverrides Number enumValues (Some (before @ override # after)) =
           Inl ''Invalid key: . Did you mean: body?''"
proof -
  from assms(1) have key: "overrideKey override = []"
    by (auto simp: overrideKey_no_separator overrideKey_empty_key)
  from validate_first_failure [OF assms(2) parseOverride_empty_key [OF key]] key
  show ?thesis by simp
qed

theorem missing_separator_is_invalid_key_witness:
  "CHR ''='' \<notin> set ''followRedirects'' \<and>
   validateAndParseOverrides (\<lambda>s. Some (0 :: int)) [''blocking''] (Some [''body=x'', ''followRedirects''])
     = Inl ''Invalid key: . Did you mean: body?'' \<and>
   validateAndParseOverrides (\<lambda>s. Some (0 :: int)) [''blocking''] (Some [''body=x'', ''=true'', ''body=y''])
     = Inl ''Invalid key: . Did you mean: body?''"
proof -
  have h1: "CHR ''='' \<notin> set ''followRedirects''" by simp
  have h2: "\<exists>v. ''=true'' = CHR ''='' # v" by simp
  have pre: "reduceOverrides (\<lambda>s. Some (0 :: int)) [''blocking''] [] [''body=x'']
               = Inr [(''body'', JStr ''x'')]"
    by (rule reduceOverrides_body_example)
  from missing_separator_is_invalid_key [OF disjI1 [OF h1] pre, of "[]"]
       missing_separator_is_invalid_key [OF disjI2 [OF h2] pre, of "[''body=y'']"] h1
  show ?thesis by simp
qed

subsection \<open>Boolean values\<close>

lemma of_char_lt: "(of_char c :: nat) < 256"
  by simp

lemma char_of_eq_of_char: "char_of (n :: nat) = c \<longleftrightarrow> n mod 256 = of_char c"
proof
  assume "char_of n = c"
  then have "(of_char (char_of n) :: nat) = of_char c" by simp
  then show "n mod 256 = of_char c" by (simp add: of_char_of)
next
  assume "n mod 256 = of_char c"
  then have "char_of (n mod 256) = char_of (of_char c :: nat)" by simp
  then show "char_of n = c" by simp
qed

lemma toLowerCase_char_eq:
  assumes "97 \<le> (of_char d :: nat)" "(of_char d :: nat) \<le> 122"
  shows "toLowerCase_char c = d \<longleftrightarrow> c = d \<or> (of_char c :: nat) + 32 = of_char d"
proof -
  have lt: "(of_char c :: nat) < 256" by (rule of_char_lt)
  have inj: "\<And>x y. (of_char x :: nat) = of_char y \<longleftrightarrow> x = y" by simp
  show ?thesis
  proof (cases "(65 \<le> (of_char c :: nat) \<and> (of_char c :: nat) \<le> 90) \<or> (192 \<le> (of_char c :: nat) \<and> (of_char c :: nat) \<le> 222 \<and> (of_char c :: nat) \<noteq> 215)")
    case True
    then have lc: "toLowerCase_char c = char_of ((of_char c :: nat) + 32)"
      by (simp add: toLowerCase_char_def Let_def)
    have "(of_char (toLowerCase_char c) :: nat) = of_char c + 32"
      using lt True unfolding lc by (auto simp: of_char_of)
    then have "toLowerCase_char c = d \<longleftrightarrow> (of_char c :: nat) + 32 = of_char d"
      using inj [of "toLowerCase_char c" d] by simp
    moreover have "c \<noteq> d" using True assms by auto
    ultimately show ?thesis by simp
  next
    case False
    then have lc: "toLowerCase_char c = c"
      by (auto simp: toLowerCase_char_def Let_def)
    have "(of_char c :: nat) + 32 \<noteq> of_char d" using False assms by arith
    then show ?thesis unfolding lc by simp
  qed
qed

lemma toLowerCase_eq:
  "\<forall>d \<in> set w. 97 \<le> (of_char d :: nat) \<and> (of_char d :: nat) \<le> 122 \<Longrightarrow>
   toLowerCase v = w \<longleftrightarrow> equalsIgnoringCase v w"
proof (induction v arbitrary: w)
  case Nil
  show ?case by (auto simp: toLowerCase_def equalsIgnoringCase_def)
next
  case (Cons c v)
  show ?case
  proof (cases w)
    case Nil
    then show ?thesis by (simp add: toLowerCase_def equalsIgnoringCase_def)
  next
    case (Cons d w')
    with Cons.prems have d: "97 \<le> (of_char d :: nat)" "(of_char d :: nat) \<le> 122"
      and w': "\<forall>d \<in> set w'. 97 \<le> (of_char d :: nat) \<and> (of_char d :: nat) \<le> 122"
      by simp_all
    from Cons.IH [OF w'] toLowerCase_char_eq [OF d, of c] show ?thesis
      unfolding Cons by (simp add: toLowerCase_def equalsIgnoringCase_def)
  qed
qed

lemma toLowerCase_true: "toLowerCase v = ''true'' \<longleftrightarrow> equalsIgnoringCase v ''true''"
  by (rule toLowerCase_eq) simp

lemma toLowerCase_false: "toLowerCase v = ''false'' \<longleftrightarrow> equalsIgnoringCase v ''false''"
  by (rule toLowerCase_eq) simp


lemma toBoolean_Some:
  "toBoolean (Some v) =
     (if equalsIgnoringCase v ''true'' \<or> v = ''1'' then Some True
      else if equalsIgnoringCase v ''false'' \<or> v = ''0'' then Some False
      else None)"
  by (simp add: toBoolean_def toLowerCase_true toLowerCase_false)

lemma parseOverrideValue_boolean:
  "parseOverrideValue Number enumValues v ''boolean'' =
     (if equalsIgnoringCase v ''true'' \<or> v = ''1'' then Inr (JBool True)
      else if equalsIgnoringCase v ''false'' \<or> v = ''0'' then Inr (JBool False)
      else Inl (''Invalid boolean value: '' @ v))"
  by (simp add: parseOverrideValue_def toBoolean_Some)

lemma validate_step:
  assumes "reduceOverrides Number enumValues [] before = Inr acc"
  shows "validateAndParseOverrides Number enumValues (Some (before @ override # after)) =
           (case parseOverride Number enumValues acc override of
              Inl e \<Rightarrow> Inl e
            | Inr acc' \<Rightarrow> reduceOverrides Number enumValues acc' after)"
  using assms by (simp add: validateAndParseOverrides_def reduceOverrides_append)

lemma parseOverride_boolean_key:
  assumes "overrideKey override \<in> set [''allowInsecureCertificates'', ''followRedirects'']"
  shows "parseOverride Number enumValues acc override =
        (if equalsIgnoringCase (overrideValue override) ''true'' \<or> overrideValue override = ''1''
         then Inr (AList.update (overrideKey override) (JBool True) acc)
         else if equalsIgnoringCase (overrideValue override) ''false''
                 \<or> overrideValue override = ''0''
         then Inr (AList.update (overrideKey override) (JBool False) acc)
         else Inl (''Invalid boolean value: '' @ overrideValue override))"
  using assms
  by (auto simp: parseOverride_def parseOverrideValue_boolean assign_def Let_def)

lemma parseOverride_cookies_append:
  assumes "overrideKey override = ''cookies''" "overrideSubKey override = Some ''append''"
  shows "parseOverride Number enumValues acc override =
        (if equalsIgnoringCase (overrideValue override) ''true'' \<or> overrideValue override = ''1''
         then Inr (setSubKey ''cookies'' ''append'' (JBool True) acc)
         else if equalsIgnoringCase (overrideValue override) ''false''
                 \<or> overrideValue override = ''0''
         then Inr (setSubKey ''cookies'' ''append'' (JBool False) acc)
         else Inl (''Invalid boolean value: '' @ overrideValue override))"
  using assms
  by (auto simp: parseOverride_def parseOverrideValue_boolean assignSub_def Let_def)

text \<open>C10: the coercion of a boolean-typed override accepts exactly \<^verbatim>\<open>true\<close> in any case
  and \<^verbatim>\<open>1\<close>, which give true, and \<^verbatim>\<open>false\<close> in any case and \<^verbatim>\<open>0\<close>, which give false; any
  other value throws \<^verbatim>\<open>Invalid boolean value\<close>. So does the resolver on an override with one of
  its boolean-typed keys \<^verbatim>\<open>allowInsecureCertificates\<close> and \<^verbatim>\<open>followRedirects\<close>, or with
  \<^verbatim>\<open>cookies.append\<close>, once the overrides before it have parsed: it stores the boolean under the
  key and goes on with the overrides after it, or fails with \<^verbatim>\<open>Invalid boolean value\<close>.\<close>

theorem boolean_override_values:
  "parseOverrideValue Number enumValues v ''boolean'' =
     (if equalsIgnoringCase v ''true'' \<or> v = ''1'' then Inr (JBool True)
      else if equalsIgnoringCase v ''false'' \<or> v = ''0'' then Inr (JBool False)
      else Inl (''Invalid boolean value: '' @ v)) \<and>
   (overrideKey override \<in> set [''allowInsecureCertificates'', ''followRedirects''] \<longrightarrow>
      parseOverride Number enumValues acc override =
        (if equalsIgnoringCase (overrideValue override) ''true'' \<or> overrideValue override = ''1''
         then Inr (AList.update (overrideKey override) (JBool True) acc)
         else if equalsIgnoringCase (overrideValue override) ''false''
                 \<or> overrideValue override = ''0''
         then Inr (AList.update (overrideKey override) (JBool False) acc)
         else Inl (''Invalid boolean value: '' @ overrideValue override))) \<and>
   (overrideKey override = ''cookies'' \<and> overrideSubKey override = Some ''append'' \<longrightarrow>
      parseOverride Number enumValues acc override =
        (if equalsIgnoringCase (overrideValue override) ''true'' \<or> overrideValue override = ''1''
         then Inr (setSubKey ''cookies'' ''append'' (JBool True) acc)
         else if equalsIgnoringCase (overrideValue override) ''false''
                 \<or> overrideValue override = ''0''
         then Inr (setSubKey ''cookies'' ''append'' (JBool False) acc)
         else Inl (''Invalid boolean value: '' @ overrideValue override))) \<and>
   (reduceOverrides Number enumValues [] before = Inr acc \<longrightarrow>
    overrideKey override \<in> set [''allowInsecureCertificates'', ''followRedirects''] \<longrightarrow>
      validateAndParseOverrides Number enumValues (Some (before @ override # after)) =
        (if equalsIgnoringCase (overrideValue override) ''true'' \<or> overrideValue override = ''1''
         then reduceOverrides Number enumValues
                (AList.update (overrideKey override) (JBool True) acc) after
         else if equalsIgnoringCase (overrideValue override) ''false''
                 \<or> overrideValue override = ''0''
         then reduceOverrides Number enumValues
                (AList.update (overrideKey override) (JBool False) acc) after
         else Inl (''Invalid boolean value: '' @ overrideValue override))) \<and>
   (reduceOverrides Number enumValues [] before = Inr acc \<longrightarrow>
    overrideKey override = ''cookies'' \<and> overrideSubKey override = Some ''append'' \<longrightarrow>
      validateAndParseOverrides Number enumValues (Some (before @ override # after)) =
        (if equalsIgnoringCase (overrideValue override) ''true'' \<or> overrideValue override = ''1''
         then reduceOverrides Number enumValues
                (setSubKey ''cookies'' ''append'' (JBool True) acc) after
         else if equalsIgnoringCase (overrideValue override) ''false''
                 \<or> overrideValue override = ''0''
         then reduceOverrides Number enumValues
                (setSubKey ''cookies'' ''append'' (JBool False) acc) after
         else Inl (''Invalid boolean value: '' @ overrideValue override)))"
proof (intro conjI impI)
  show "parseOverrideValue Number enumValues v ''boolean'' =
     (if equalsIgnoringCase v ''true'' \<or> v = ''1'' then Inr (JBool True)
      else if equalsIgnoringCase v ''false'' \<or> v = ''0'' then Inr (JBool False)
      else Inl (''Invalid boolean value: '' @ v))"
    by (rule parseOverrideValue_boolean)
next
  assume "overrideKey override \<in> set [''allowInsecureCertificates'', ''followRedirects'']"
  then show "parseOverride Number enumValues acc override =
        (if equalsIgnoringCase (overrideValue override) ''true'' \<or> overrideValue override = ''1''
         then Inr (AList.update (overrideKey override) (JBool True) acc)
         else if equalsIgnoringCase (overrideValue override) ''false''
                 \<or> overrideValue override = ''0''
         then Inr (AList.update (overrideKey override) (JBool False) acc)
         else Inl (''Invalid boolean value: '' @ overrideValue override))"
    by (rule parseOverride_boolean_key)
next
  assume "overrideKey override = ''cookies'' \<and> overrideSubKey override = Some ''append''"
  then show "parseOverride Number enumValues acc override =
        (if equalsIgnoringCase (overrideValue override) ''true'' \<or> overrideValue override = ''1''
         then Inr (setSubKey ''cookies'' ''append'' (JBool True) acc)
         else if equalsIgnoringCase (overrideValue override) ''false''
                 \<or> overrideValue override = ''0''
         then Inr (setSubKey ''cookies'' ''append'' (JBool False) acc)
         else Inl (''Invalid boolean value: '' @ overrideValue override))"
    by (simp add: parseOverride_cookies_append)
next
  assume "reduceOverrides Number enumValues [] before = Inr acc"
    and "overrideKey override \<in> set [''allowInsecureCertificates'', ''followRedirects'']"
  then show "validateAndParseOverrides Number enumValues (Some (before @ override # after)) =
        (if equalsIgnoringCase (overrideValue override) ''true'' \<or> overrideValue override = ''1''
         then reduceOverrides Number enumValues
                (AList.update (overrideKey override) (JBool True) acc) after
         else if equalsIgnoringCase (overrideValue override) ''false''
                 \<or> overrideValue override = ''0''
         then reduceOverrides Number enumValues
                (AList.update (overrideKey override) (JBool False) acc) after
         else Inl (''Invalid boolean value: '' @ overrideValue override))"
    by (simp only: validate_step parseOverride_boolean_key) simp
next
  assume "reduceOverrides Number enumValues [] before = Inr acc"
    and "overrideKey override = ''cookies'' \<and> overrideSubKey override = Some ''append''"
  then show "validateAndParseOverrides Number enumValues (Some (before @ override # after)) =
        (if equalsIgnoringCase (overrideValue override) ''true'' \<or> overrideValue override = ''1''
         then reduceOverrides Number enumValues
                (setSubKey ''cookies'' ''append'' (JBool True) acc) after
         else if equalsIgnoringCase (overrideValue override) ''false''
                 \<or> overrideValue override = ''0''
         then reduceOverrides Number enumValues
                (setSubKey ''cookies'' ''append'' (JBool False) acc) after
         else Inl (''Invalid boolean value: '' @ overrideValue override))"
    by (simp add: validate_step parseOverride_cookies_append)
qed

theorem boolean_override_values_witness:
  "reduceOverrides (\<lambda>s. Some (0 :: int)) [''blocking''] [] [''body=x'']
     = Inr [(''body'', JStr ''x'')] \<and>
   overrideKey ''followRedirects=TRUE'' \<in> set [''allowInsecureCertificates'', ''followRedirects''] \<and>
   validateAndParseOverrides (\<lambda>s. Some (0 :: int)) [''blocking'']
       (Some [''body=x'', ''followRedirects=TRUE''])
     = Inr [(''body'', JStr ''x''), (''followRedirects'', JBool True)] \<and>
   overrideKey ''allowInsecureCertificates=0'' \<in> set [''allowInsecureCertificates'', ''followRedirects''] \<and>
   validateAndParseOverrides (\<lambda>s. Some (0 :: int)) [''blocking'']
       (Some [''body=x'', ''allowInsecureCertificates=0''])
     = Inr [(''body'', JStr ''x''), (''allowInsecureCertificates'', JBool False)] \<and>
   overrideKey ''followRedirects=yes'' \<in> set [''allowInsecureCertificates'', ''followRedirects''] \<and>
   validateAndParseOverrides (\<lambda>s. Some (0 :: int)) [''blocking'']
       (Some [''body=x'', ''followRedirects=yes'', ''body=y''])
     = Inl ''Invalid boolean value: yes'' \<and>
   overrideKey ''cookies.append=False'' = ''cookies'' \<and>
   overrideSubKey ''cookies.append=False'' = Some ''append'' \<and>
   validateAndParseOverrides (\<lambda>s. Some (0 :: int)) [''blocking'']
       (Some [''body=x'', ''cookies.append=False''])
     = Inr [(''body'', JStr ''x''), (''cookies'', JObj [(''append'', JBool False)])]"
proof -
  have k: "overrideKey ''followRedirects=TRUE'' = ''followRedirects''"
    "overrideValue ''followRedirects=TRUE'' = ''TRUE''"
    "overrideKey ''allowInsecureCertificates=0'' = ''allowInsecureCertificates''"
    "overrideValue ''allowInsecureCertificates=0'' = ''0''"
    "overrideKey ''followRedirects=yes'' = ''followRedirects''"
    "overrideValue ''followRedirects=yes'' = ''yes''"
    "overrideKey ''cookies.append=False'' = ''cookies''"
    "overrideSubKey ''cookies.append=False'' = Some ''append''"
    "overrideValue ''cookies.append=False'' = ''False''"
    by (simp_all add: override_parts)
  have pre: "reduceOverrides (\<lambda>s. Some (0 :: int)) [''blocking''] [] [''body=x'']
               = Inr [(''body'', JStr ''x'')]"
    by (rule reduceOverrides_body_example)
  from boolean_override_values [where Number="\<lambda>s. Some (0 :: int)" and enumValues="[''blocking'']"
         and v="''x''" and override="''followRedirects=TRUE''" and acc="[(''body'', JStr ''x'')]"
         and before="[''body=x'']" and after="[]"]
       boolean_override_values [where Number="\<lambda>s. Some (0 :: int)" and enumValues="[''blocking'']"
         and v="''x''" and override="''allowInsecureCertificates=0''"
         and acc="[(''body'', JStr ''x'')]" and before="[''body=x'']" and after="[]"]
       boolean_override_values [where Number="\<lambda>s. Some (0 :: int)" and enumValues="[''blocking'']"
         and v="''x''" and override="''followRedirects=yes''" and acc="[(''body'', JStr ''x'')]"
         and before="[''body=x'']" and after="[''body=y'']"]
       boolean_override_values [where Number="\<lambda>s. Some (0 :: int)" and enumValues="[''blocking'']"
         and v="''x''" and override="''cookies.append=False''" and acc="[(''body'', JStr ''x'')]"
         and before="[''body=x'']" and after="[]"]
       pre
  show ?thesis
    by (simp add: k equalsIgnoringCase_def setSubKey_def)
qed

section \<open>The trigger-config builder\<close>

lemma spliceMatching_Nil: "spliceMatching i [] = (None, [])"
  by (simp add: spliceMatching_def)

lemma spliceMatching_Cons:
  "spliceMatching i (t # ts) =
     (if test_id t = i then (Some t, ts)
      else (case spliceMatching i ts of (m, ts') \<Rightarrow> (m, t # ts')))"
  by (simp add: spliceMatching_def split: option.splits)

lemma spliceMatching_filter:
  "spliceMatching i ts = (m, ts') \<Longrightarrow>
     m = (case filter (\<lambda>t. test_id t = i) ts of [] \<Rightarrow> None | x # _ \<Rightarrow> Some x) \<and>
     filter (\<lambda>t. test_id t = i) ts' = tl (filter (\<lambda>t. test_id t = i) ts) \<and>
     (\<forall>j. j \<noteq> i \<longrightarrow> filter (\<lambda>t. test_id t = j) ts' = filter (\<lambda>t. test_id t = j) ts)"
proof (induction ts arbitrary: m ts')
  case Nil
  then show ?case by (simp add: spliceMatching_Nil)
next
  case (Cons t ts)
  show ?case
  proof (cases "test_id t = i")
    case True
    with Cons.prems show ?thesis by (auto simp: spliceMatching_Cons)
  next
    case False
    obtain m0 ts0 where sp: "spliceMatching i ts = (m0, ts0)" by (cases "spliceMatching i ts")
    with Cons.prems False have eq: "m = m0" "ts' = t # ts0" by (simp_all add: spliceMatching_Cons)
    from Cons.IH [OF sp] False show ?thesis unfolding eq by simp
  qed
qed

lemma matchingEntry_0:
  "spliceMatching x ts = (m, ts') \<Longrightarrow> matchingEntry (x # ids) ts 0 = m"
  by (drule spliceMatching_filter) (auto simp: matchingEntry_def split: list.splits)

lemma matchingEntry_Suc:
  assumes "spliceMatching x ts = (m, ts')"
  shows "matchingEntry (x # ids) ts (Suc i) = matchingEntry ids ts' i"
proof -
  note f = spliceMatching_filter [OF assms]
  show ?thesis
  proof (cases "ids ! i = x")
    case True
    let ?same = "filter (\<lambda>t. test_id t = x) ts"
    have tl: "filter (\<lambda>t. test_id t = x) ts' = tl ?same" using f by simp
    show ?thesis
      unfolding matchingEntry_def Let_def using True tl
      by (cases ?same) auto
  next
    case False
    with f have "filter (\<lambda>t. test_id t = ids ! i) ts' = filter (\<lambda>t. test_id t = ids ! i) ts"
      by simp
    with False show ?thesis by (simp add: matchingEntry_def Let_def)
  qed
qed

lemma mapTestIds_nth:
  "i < length ids \<Longrightarrow>
   mapTestIds d ids sq tc ! i =
     makeTriggerConfig d (ids ! i) (matchingEntry ids sq i) (matchingEntry ids tc i)"
proof (induction ids arbitrary: i sq tc)
  case Nil
  then show ?case by simp
next
  case (Cons x ids)
  obtain m1 sq' where s1: "spliceMatching x sq = (m1, sq')" by (cases "spliceMatching x sq")
  obtain m2 tc' where s2: "spliceMatching x tc = (m2, tc')" by (cases "spliceMatching x tc")
  show ?case
  proof (cases i)
    case 0
    with s1 s2 show ?thesis by (simp add: matchingEntry_0)
  next
    case (Suc j)
    with Cons.prems have "j < length ids" by simp
    from Cons.IH [OF this, of sq' tc'] s1 s2 Suc show ?thesis
      by (simp add: matchingEntry_Suc)
  qed
qed

lemma mapTestIds_length: "length (mapTestIds d ids sq tc) = length ids"
  by (induction ids arbitrary: sq tc) (auto split: prod.splits)

lemma mapTestIds_ids: "map test_id (mapTestIds d ids sq tc) = ids"
  by (induction ids arbitrary: sq tc) (auto split: prod.splits simp: makeTriggerConfig_def)

lemma spread_lookup:
  "spread a b k = (case b k of Some v \<Rightarrow> Some v | None \<Rightarrow> a k)"
  by (simp add: spread_def map_add_def)

lemma testIdsToTrigger_first:
  "testIdsToTrigger cli sq tc = (if cli \<noteq> [] then cli else if sq \<noteq> [] then sq else tc)"
  by (simp add: testIdsToTrigger_def)


lemma matchingEntry_distinct:
  assumes "distinct ids" "i < length ids"
  shows "matchingEntry ids ts i = List.find (\<lambda>t. test_id t = ids ! i) ts"
proof -
  have "ids ! i \<notin> set (take i ids)"
  proof
    assume "ids ! i \<in> set (take i ids)"
    then obtain j where j: "j < length (take i ids)" "take i ids ! j = ids ! i"
      by (auto simp: in_set_conv_nth)
    then have "j < i" "ids ! j = ids ! i" by simp_all
    with assms show False by (simp add: nth_eq_iff_index_eq)
  qed
  then have "count_list (take i ids) (ids ! i) = 0" by (simp add: count_list_0_iff)
  then show ?thesis
    by (induction ts) (auto simp: matchingEntry_def Let_def)
qed

text \<open>C3: the ids to trigger are those of the first of the three sources, in the order CLI
  ids, search-query results, test-config files, that is not empty, and of that source alone;
  the trigger configs built carry exactly these ids, in order. With no CLI id, search-query
  ids A and B and test-config id C, the ids are A and B.\<close>

theorem first_non_empty_id_source:
  "testIdsToTrigger cli sq tc = (if cli \<noteq> [] then cli else if sq \<noteq> [] then sq else tc) \<and>
   (getTestConfigs env = Inr testsFromTestConfigs \<longrightarrow>
    getTestsFromSearchQuery env = Inr testsFromSearchQuery \<longrightarrow>
    (\<exists>tcs. getTriggerConfigs env config = Inr tcs \<and>
       map test_id tcs =
         (if publicIds config \<noteq> [] then publicIds config
          else if testsFromSearchQuery \<noteq> [] then map test_id testsFromSearchQuery
          else map test_id testsFromTestConfigs))) \<and>
   testIdsToTrigger [] [''A'', ''B''] [''C''] = [''A'', ''B'']"
  by (simp add: testIdsToTrigger_first getTriggerConfigs_def mapTestIds_ids)

theorem first_non_empty_id_source_witness:
  "getTestConfigs exampleEnv = Inr [testA, testB] \<and>
   getTestsFromSearchQuery exampleEnv = Inr [] \<and>
   (\<exists>tcs. getTriggerConfigs exampleEnv exampleConfig = Inr tcs \<and>
      map test_id tcs = [''aaa-aaa-aaa'', ''bbb-bbb-bbb'']) \<and>
   (\<exists>tcs. getTriggerConfigs (exampleEnv\<lparr>getTestsFromSearchQuery := Inr [testB]\<rparr>) exampleConfig
             = Inr tcs \<and> map test_id tcs = [''bbb-bbb-bbb'']) \<and>
   (\<exists>tcs. getTriggerConfigs (exampleEnv\<lparr>getTestsFromSearchQuery := Inr [testB]\<rparr>)
             (exampleConfig\<lparr>publicIds := [''ccc-ccc-ccc'']\<rparr>)
             = Inr tcs \<and> map test_id tcs = [''ccc-ccc-ccc''])"
  using first_non_empty_id_source [of "[]" "[]" "[]" exampleEnv "[testA, testB]" "[]" exampleConfig]
        first_non_empty_id_source [of "[]" "[]" "[]" "exampleEnv\<lparr>getTestsFromSearchQuery := Inr [testB]\<rparr>"
           "[testA, testB]" "[testB]" exampleConfig]
        first_non_empty_id_source [of "[]" "[]" "[]" "exampleEnv\<lparr>getTestsFromSearchQuery := Inr [testB]\<rparr>"
           "[testA, testB]" "[testB]" "exampleConfig\<lparr>publicIds := [''ccc-ccc-ccc'']\<rparr>"]
  by (simp add: exampleEnv_def exampleConfig_def testA_def testB_def)

text \<open>C7: \<^verbatim>\<open>getTriggerConfigs\<close> builds one trigger config for each id of the chosen list. The
  config for the \<open>i\<close>-th id has that id, and its override set is the default overrides of the
  configuration with the overrides of the matching test-config entry merged over them: a key
  of the entry's overrides has the entry's value, any other key the default's. The matching
  entry is the one spliced out of the test-config files for this id (\<open>matchingEntry\<close>): when
  the ids are distinct, the first entry of the test-config files with the id.\<close>

theorem per_test_overrides_win:
  assumes "getTestConfigs env = Inr testsFromTestConfigs"
    and "getTestsFromSearchQuery env = Inr testsFromSearchQuery"
    and "ids = testIdsToTrigger (publicIds config) (map test_id testsFromSearchQuery)
                 (map test_id testsFromTestConfigs)"
    and "i < length ids"
  shows "\<exists>tcs. getTriggerConfigs env config = Inr tcs \<and> length tcs = length ids \<and>
           test_id (tcs ! i) = ids ! i \<and>
           (\<exists>merged. testOverrides (tcs ! i) = Some merged \<and>
              (\<forall>k. merged k =
                 (case ownProperties
                         (Option.bind (matchingEntry ids testsFromTestConfigs i) testOverrides) k of
                    Some v \<Rightarrow> Some v
                  | None \<Rightarrow> ownProperties (defaultTestOverrides config) k))) \<and>
           (distinct ids \<longrightarrow>
              matchingEntry ids testsFromTestConfigs i
                = List.find (\<lambda>t. test_id t = ids ! i) testsFromTestConfigs)"
  using assms
  by (simp add: getTriggerConfigs_def mapTestIds_length mapTestIds_nth makeTriggerConfig_def
        spread_lookup matchingEntry_distinct)

theorem per_test_overrides_win_witness:
  "getTestConfigs exampleEnv = Inr [testA, testB] \<and>
   getTestsFromSearchQuery exampleEnv = Inr [] \<and>
   testIdsToTrigger (publicIds exampleConfig) (map test_id []) (map test_id [testA, testB])
     = [''aaa-aaa-aaa'', ''bbb-bbb-bbb''] \<and>
   (0 :: nat) < length [''aaa-aaa-aaa'', ''bbb-bbb-bbb''] \<and>
   distinct [''aaa-aaa-aaa'', ''bbb-bbb-bbb''] \<and>
   matchingEntry [''aaa-aaa-aaa'', ''bbb-bbb-bbb''] [testA, testB] 0 = Some testA \<and>
   (\<exists>tcs merged.
      getTriggerConfigs exampleEnv exampleConfig = Inr tcs \<and> length tcs = 2 \<and>
      testOverrides (tcs ! 0) = Some merged \<and>
      merged ''startUrl'' = Some (JStr ''https://a'') \<and>
      merged ''body'' = Some (JStr ''{}'') \<and>
      merged ''pollingTimeout'' = Some (JNum 60) \<and>
      merged ''headers'' = None)"
proof -
  let ?ids = "[''aaa-aaa-aaa'', ''bbb-bbb-bbb'']"
  have c: "getTestConfigs exampleEnv = Inr [testA, testB]"
    and q: "getTestsFromSearchQuery exampleEnv = Inr []"
    by (simp_all add: exampleEnv_def)
  have ids: "?ids = testIdsToTrigger (publicIds exampleConfig) (map test_id [])
                      (map test_id [testA, testB])"
    by (simp add: testIdsToTrigger_def exampleConfig_def testA_def testB_def)
  have len: "(0 :: nat) < length ?ids" by simp
  have dist: "distinct ?ids" by simp
  have m: "matchingEntry ?ids [testA, testB] 0 = Some testA"
    by (simp add: matchingEntry_def testA_def testB_def)
  from per_test_overrides_win [OF c q ids len]
  obtain tcs merged where
    g: "getTriggerConfigs exampleEnv exampleConfig = Inr tcs" "length tcs = length ?ids"
    and t: "testOverrides (tcs ! 0) = Some merged"
    and l: "\<And>k. merged k =
               (case ownProperties (Option.bind (matchingEntry ?ids [testA, testB] 0)
                                      testOverrides) k of
                  Some v \<Rightarrow> Some v
                | None \<Rightarrow> ownProperties (defaultTestOverrides exampleConfig) k)"
    by auto
  have "merged ''startUrl'' = Some (JStr ''https://a'')" "merged ''body'' = Some (JStr ''{}'')"
    "merged ''pollingTimeout'' = Some (JNum 60)" "merged ''headers'' = None"
    unfolding l m by (simp_all add: ownProperties_def testA_def exampleConfig_def)
  moreover from g have "length tcs = 2" by simp
  ultimately show ?thesis using c q ids [symmetric] len dist m g(1) t by blast
qed

section \<open>The run\<close>

lemma pollResults_eq:
  "pollResults D env config tcs r tg s =
     (s\<lparr>trace := trace s @ pollTrace D config tcs r tg (tunnel_var s)\<rparr>, pollOutcome env r tg)"
  by (simp add: pollResults_def pollTrace_def pollOutcome_def stops_def stopTunnel_def emit_def Let_def
           split: option.splits)

lemma triggerTests_eq:
  "triggerTests D env config tcs r s =
     (s\<lparr>trace := trace s @ triggerTrace D env config tcs r (tunnel_var s)\<rparr>, triggerOutcome env r)"
  by (simp add: triggerTests_def pollResults_eq triggerTrace_def triggerOutcome_def stops_def
           stopTunnel_def emit_def Let_def rateLimitedMessage_def
           split: option.splits sum.splits)


lemma openTunnel_eq:
  "tunnel_var s = None \<Longrightarrow>
   trace (fst (openTunnel D env config tcs r s)) = trace s @ tunnelTrace D env config tcs r \<and>
   snd (openTunnel D env config tcs r s) = tunnelOutcome env config r"
  by (simp add: openTunnel_def triggerTests_eq tunnelTrace_def tunnelOutcome_def withTunnel_def
           stopTunnel_def emit_def Let_def
           split: sum.splits tunnelSetup.splits)


lemma executeTests_eq:
  "trace (fst (executeTests D helpers env config))
     = runTrace D env (normalizeConfig helpers config) \<and>
   snd (executeTests D helpers env config) = runOutcome env (normalizeConfig helpers config)"
  by (simp add: executeTests_def runTrace_def runOutcome_def openTunnel_eq emit_def Let_def
           split: sum.splits)

lemmas outcome_defs = runOutcome_def tunnelOutcome_def triggerOutcome_def pollOutcome_def
lemmas trace_defs = runTrace_def tunnelTrace_def triggerTrace_def pollTrace_def stops_def
lemmas example_defs = exampleEnv_def exampleConfig_def exampleTests_def exampleTrigger_def
  testA_def testB_def forbiddenError_def networkError_def timeoutError_def
lemma normalizeConfig_example: "normalizeConfig exampleCompat config = config"
  by (simp add: normalizeConfig_def exampleCompat_def)

lemma normalizeConfig_pollingFirst:
  "normalizeConfig pollingFirstCompat config =
     config\<lparr>batchTimeout := (case pollingTimeout config of
                                 None \<Rightarrow> batchTimeout config
                               | Some p \<Rightarrow> Some p)\<rparr>"
  by (simp add: normalizeConfig_def pollingFirstCompat_def)

lemmas eval_defs = trace_defs outcome_defs getTriggerConfigs_def testIdsToTrigger_def
  spliceMatching_def makeTriggerConfig_def truthy_def withTunnel_def normalizeConfig_example

lemma trace_executeTests:
  "trace (fst (executeTests D helpers env config)) = runTrace D env (normalizeConfig helpers config)"
  by (simp add: executeTests_eq)

lemma outcome_executeTests:
  "snd (executeTests D helpers env config) = runOutcome env (normalizeConfig helpers config)"
  by (simp add: executeTests_eq)

lemma stopTunnel_never_started: "tunnel_var s = None \<Longrightarrow> stopTunnel s = s"
  by (simp add: stopTunnel_def)

lemma runTrace_stops:
  "count_list (runTrace D env config) TunnelStop =
     (if TunnelStart \<in> set (runTrace D env config) then 1 else 0)"
  by (auto simp: trace_defs split: sum.splits tunnelSetup.splits)

lemma pollTrace_last: "last (pollTrace D config tcs r trig (Some url)) = TunnelStop"
  by (simp add: pollTrace_def stops_def)

lemma triggerTrace_last: "last (triggerTrace D env config tcs r (Some url)) = TunnelStop"
  by (simp add: triggerTrace_def pollTrace_last pollTrace_def stops_def split: sum.splits)

lemma triggerTrace_no_start: "TunnelStart \<notin> set (triggerTrace D env config tcs r tv)"
  by (simp add: triggerTrace_def pollTrace_def stops_def split: sum.splits)

lemma triggerTrace_nonempty: "triggerTrace D env config tcs r tv \<noteq> []"
  by (simp add: triggerTrace_def)

lemma tunnelTrace_last:
  "TunnelStart \<in> set (tunnelTrace D env config tcs r) \<Longrightarrow>
   last (tunnelTrace D env config tcs r) = TunnelStop"
proof (cases "truthy (tunnel config)")
  case False
  assume "TunnelStart \<in> set (tunnelTrace D env config tcs r)"
  with False show ?thesis by (simp add: tunnelTrace_def triggerTrace_no_start)
next
  case True
  assume "TunnelStart \<in> set (tunnelTrace D env config tcs r)"
  with True show ?thesis
    by (cases "getTunnelPresignedURL env"; cases "tunnelSetup env")
       (simp_all add: tunnelTrace_def triggerTrace_last triggerTrace_nonempty)
qed

lemma tunnelTrace_nonempty: "tunnelTrace D env config tcs r \<noteq> []"
  by (simp add: tunnelTrace_def triggerTrace_def)

lemma runTrace_stop_last:
  assumes "TunnelStart \<in> set (runTrace D env config)"
  shows "last (runTrace D env config) = TunnelStop"
proof (cases "getTriggerConfigs env config")
  case (Inl e)
  with assms show ?thesis by (simp add: runTrace_def)
next
  case tcs: (Inr tcs)
  show ?thesis
  proof (cases "getTestsToTrigger env")
    case (Inl e)
    with assms tcs show ?thesis by (simp add: runTrace_def split: if_splits)
  next
    case (Inr r)
    with assms tcs show ?thesis
      by (simp add: runTrace_def tunnelTrace_last tunnelTrace_nonempty split: if_splits)
  qed
qed

text \<open>C2: in every run that called \<^verbatim>\<open>tunnel.start()\<close>, whatever the outcomes of the
  collaborators and so on every exit path, \<^verbatim>\<open>tunnel.stop()\<close> is called exactly once, and it
  is the last call of the run; a run that never started the tunnel never calls it; and
  \<open>stopTunnel\<close> with no tunnel assigned changes nothing and throws nothing.\<close>

theorem tunnel_stopped_exactly_once:
  "(TunnelStart \<in> set (trace (fst (executeTests D helpers env config))) \<longrightarrow>
      count_list (trace (fst (executeTests D helpers env config))) TunnelStop = 1 \<and>
      last (trace (fst (executeTests D helpers env config))) = TunnelStop) \<and>
   (TunnelStart \<notin> set (trace (fst (executeTests D helpers env config))) \<longrightarrow>
      count_list (trace (fst (executeTests D helpers env config))) TunnelStop = 0) \<and>
   (tunnel_var s = None \<longrightarrow> stopTunnel s = s)"
  unfolding trace_executeTests
  by (simp add: runTrace_stops runTrace_stop_last stopTunnel_never_started)

theorem tunnel_stopped_exactly_once_witness:
  "TunnelStart \<in> set (trace (fst (executeTests 1800000 exampleCompat exampleEnv exampleConfig))) \<and>
   count_list (trace (fst (executeTests 1800000 exampleCompat exampleEnv exampleConfig))) TunnelStop = 1 \<and>
   TunnelStart \<in> set (trace (fst (executeTests 1800000 exampleCompat
                         (exampleEnv\<lparr>runTests := Inl networkError\<rparr>) exampleConfig))) \<and>
   count_list (trace (fst (executeTests 1800000 exampleCompat
                         (exampleEnv\<lparr>runTests := Inl networkError\<rparr>) exampleConfig))) TunnelStop = 1 \<and>
   TunnelStart \<in> set (trace (fst (executeTests 1800000 exampleCompat
                         (exampleEnv\<lparr>waitForResults := Inl networkError\<rparr>) exampleConfig))) \<and>
   count_list (trace (fst (executeTests 1800000 exampleCompat
                         (exampleEnv\<lparr>waitForResults := Inl networkError\<rparr>) exampleConfig))) TunnelStop = 1 \<and>
   TunnelStart \<in> set (trace (fst (executeTests 1800000 exampleCompat
                         (exampleEnv\<lparr>waitForResults := Inl timeoutError\<rparr>) exampleConfig))) \<and>
   count_list (trace (fst (executeTests 1800000 exampleCompat
                         (exampleEnv\<lparr>waitForResults := Inl timeoutError\<rparr>) exampleConfig))) TunnelStop = 1 \<and>
   TunnelStart \<notin> set (trace (fst (executeTests 1800000 exampleCompat (exampleEnv\<lparr>runTests := Inl networkError\<rparr>)
                         (exampleConfig\<lparr>tunnel := None\<rparr>)))) \<and>
   count_list (trace (fst (executeTests 1800000 exampleCompat (exampleEnv\<lparr>runTests := Inl networkError\<rparr>)
                         (exampleConfig\<lparr>tunnel := None\<rparr>)))) TunnelStop = 0 \<and>
   snd (executeTests 1800000 exampleCompat (exampleEnv\<lparr>runTests := Inl networkError\<rparr>)
          (exampleConfig\<lparr>tunnel := None\<rparr>))
     = Inl (CriticalError TRIGGER_TESTS_FAILED ''Network Error'') \<and>
   tunnel_var \<lparr>tunnel_var = None, trace = []\<rparr> = None \<and>
   stopTunnel \<lparr>tunnel_var = None, trace = []\<rparr> = \<lparr>tunnel_var = None, trace = []\<rparr>"
proof -
  have started:
    "TunnelStart \<in> set (trace (fst (executeTests 1800000 exampleCompat exampleEnv exampleConfig)))"
    "TunnelStart \<in> set (trace (fst (executeTests 1800000 exampleCompat
                         (exampleEnv\<lparr>runTests := Inl networkError\<rparr>) exampleConfig)))"
    "TunnelStart \<in> set (trace (fst (executeTests 1800000 exampleCompat
                         (exampleEnv\<lparr>waitForResults := Inl networkError\<rparr>) exampleConfig)))"
    "TunnelStart \<in> set (trace (fst (executeTests 1800000 exampleCompat
                         (exampleEnv\<lparr>waitForResults := Inl timeoutError\<rparr>) exampleConfig)))"
    unfolding trace_executeTests by (simp_all add: eval_defs example_defs)
  have never:
    "TunnelStart \<notin> set (trace (fst (executeTests 1800000 exampleCompat (exampleEnv\<lparr>runTests := Inl networkError\<rparr>)
                         (exampleConfig\<lparr>tunnel := None\<rparr>))))"
    unfolding trace_executeTests by (simp add: eval_defs example_defs)
  have out: "snd (executeTests 1800000 exampleCompat (exampleEnv\<lparr>runTests := Inl networkError\<rparr>)
          (exampleConfig\<lparr>tunnel := None\<rparr>))
     = Inl (CriticalError TRIGGER_TESTS_FAILED ''Network Error'')"
    unfolding outcome_executeTests by (simp add: eval_defs example_defs)
  from tunnel_stopped_exactly_once [of 1800000 exampleCompat exampleEnv exampleConfig "\<lparr>tunnel_var = None, trace = []\<rparr>"]
       tunnel_stopped_exactly_once [of 1800000 exampleCompat "exampleEnv\<lparr>runTests := Inl networkError\<rparr>" exampleConfig
          "\<lparr>tunnel_var = None, trace = []\<rparr>"]
       tunnel_stopped_exactly_once [of 1800000 exampleCompat "exampleEnv\<lparr>waitForResults := Inl networkError\<rparr>"
          exampleConfig "\<lparr>tunnel_var = None, trace = []\<rparr>"]
       tunnel_stopped_exactly_once [of 1800000 exampleCompat "exampleEnv\<lparr>waitForResults := Inl timeoutError\<rparr>"
          exampleConfig "\<lparr>tunnel_var = None, trace = []\<rparr>"]
       tunnel_stopped_exactly_once [of 1800000 exampleCompat "exampleEnv\<lparr>runTests := Inl networkError\<rparr>"
          "exampleConfig\<lparr>tunnel := None\<rparr>" "\<lparr>tunnel_var = None, trace = []\<rparr>"]
       started never out
  show ?thesis by simp
qed

text \<open>C5: when the run has polled and the poll threw, the run throws the very value caught
  if it is a \<^verbatim>\<open>BatchTimeoutRunawayError\<close>, and otherwise a \<^verbatim>\<open>CriticalError\<close> with the code
  \<^verbatim>\<open>POLL_RESULTS_FAILED\<close> and the message of the value caught; the caller tells the two
  apart, since the value thrown is a \<^verbatim>\<open>BatchTimeoutRunawayError\<close> in the first case only.\<close>

theorem batch_timeout_runaway_propagates_unwrapped:
  assumes "polled (fst (executeTests D helpers env config))"
    and "waitForResults env = Inl e"
  shows "\<exists>t. snd (executeTests D helpers env config) = Inl t \<and>
           t = (if instanceofBatchTimeoutRunawayError e then Rethrown e
                else CriticalError POLL_RESULTS_FAILED (message e)) \<and>
           (thrownInstanceofBatchTimeoutRunawayError t
              \<longleftrightarrow> instanceofBatchTimeoutRunawayError e)"
  using assms unfolding polled_def trace_executeTests outcome_executeTests
  by (auto simp: outcome_defs trace_defs split: sum.splits if_splits tunnelSetup.splits)

theorem batch_timeout_runaway_propagates_unwrapped_witness:
  "polled (fst (executeTests 1800000 exampleCompat (exampleEnv\<lparr>waitForResults := Inl timeoutError\<rparr>) exampleConfig)) \<and>
   waitForResults (exampleEnv\<lparr>waitForResults := Inl timeoutError\<rparr>) = Inl timeoutError \<and>
   snd (executeTests 1800000 exampleCompat (exampleEnv\<lparr>waitForResults := Inl timeoutError\<rparr>) exampleConfig)
     = Inl (Rethrown timeoutError) \<and>
   polled (fst (executeTests 1800000 exampleCompat (exampleEnv\<lparr>waitForResults := Inl networkError\<rparr>) exampleConfig)) \<and>
   waitForResults (exampleEnv\<lparr>waitForResults := Inl networkError\<rparr>) = Inl networkError \<and>
   snd (executeTests 1800000 exampleCompat (exampleEnv\<lparr>waitForResults := Inl networkError\<rparr>) exampleConfig)
     = Inl (CriticalError POLL_RESULTS_FAILED ''Network Error'')"
proof -
  have p: "polled (fst (executeTests 1800000 exampleCompat (exampleEnv\<lparr>waitForResults := Inl timeoutError\<rparr>)
                     exampleConfig))"
    "polled (fst (executeTests 1800000 exampleCompat (exampleEnv\<lparr>waitForResults := Inl networkError\<rparr>)
                     exampleConfig))"
    unfolding polled_def trace_executeTests by (simp_all add: eval_defs example_defs)
  have w: "waitForResults (exampleEnv\<lparr>waitForResults := Inl timeoutError\<rparr>) = Inl timeoutError"
    "waitForResults (exampleEnv\<lparr>waitForResults := Inl networkError\<rparr>) = Inl networkError"
    by simp_all
  from batch_timeout_runaway_propagates_unwrapped [OF p(1) w(1)]
       batch_timeout_runaway_propagates_unwrapped [OF p(2) w(2)] p w
  show ?thesis by (simp add: timeoutError_def networkError_def)
qed

text \<open>C8: when the trigger was submitted and its response says that the selective re-run was
  rate-limited, the run tells the reporter so (one \<^verbatim>\<open>reporter.error\<close> call with the message
  that all tests will be re-run) and goes on to poll the batch for all the tests; what it
  returns or throws is what the poll gives, the same as with a response that does not carry
  the flag: nothing is thrown for the rate limit.\<close>

theorem rate_limited_rerun_reported_not_thrown:
  assumes "submitted (fst (executeTests D helpers env config))"
    and "runTests env = Inr trig"
    and "selective_rerun_rate_limited trig = Some True"
  shows "\<exists>r. getTestsToTrigger env = Inr r \<and>
           count_list (trace (fst (executeTests D helpers env config))) (ReporterError rateLimitedMessage) = 1 \<and>
           (\<exists>deadline tunnelled.
              WaitForResults trig (tests r) deadline tunnelled
                \<in> set (trace (fst (executeTests D helpers env config)))) \<and>
           snd (executeTests D helpers env config) =
             (case waitForResults env of
                Inr rs \<Rightarrow>
                  Inr \<lparr> results = rs, summary_initial = initialSummary r,
                        summary_batchId = batch_id trig \<rparr>
              | Inl error \<Rightarrow>
                  if instanceofBatchTimeoutRunawayError error then Inl (Rethrown error)
                  else Inl (CriticalError POLL_RESULTS_FAILED (message error))) \<and>
           snd (executeTests D helpers env config) =
             snd (executeTests D helpers
                    (env\<lparr>runTests := Inr (trig\<lparr>selective_rerun_rate_limited := None\<rparr>)\<rparr>) config)"
  using assms unfolding submitted_def trace_executeTests outcome_executeTests
  by (auto simp: outcome_defs trace_defs getTriggerConfigs_def truthy_def withTunnel_def
           split: sum.splits if_splits tunnelSetup.splits)

theorem rate_limited_rerun_reported_not_thrown_witness:
  "submitted (fst (executeTests 1800000 exampleCompat
      (exampleEnv\<lparr>runTests := Inr (exampleTrigger\<lparr>selective_rerun_rate_limited := Some True\<rparr>)\<rparr>)
      exampleConfig)) \<and>
   ReporterError rateLimitedMessage \<in> set (trace (fst (executeTests 1800000 exampleCompat
      (exampleEnv\<lparr>runTests := Inr (exampleTrigger\<lparr>selective_rerun_rate_limited := Some True\<rparr>)\<rparr>)
      exampleConfig))) \<and>
   snd (executeTests 1800000 exampleCompat
      (exampleEnv\<lparr>runTests := Inr (exampleTrigger\<lparr>selective_rerun_rate_limited := Some True\<rparr>)\<rparr>)
      exampleConfig)
     = Inr \<lparr> results = [''passed'', ''passed''], summary_initial = 0, summary_batchId = ''batch-1'' \<rparr>"
proof -
  let ?env = "exampleEnv\<lparr>runTests := Inr (exampleTrigger\<lparr>selective_rerun_rate_limited := Some True\<rparr>)\<rparr>"
  have s: "submitted (fst (executeTests 1800000 exampleCompat ?env exampleConfig))"
    unfolding submitted_def trace_executeTests by (simp add: eval_defs example_defs)
  have r: "runTests ?env = Inr (exampleTrigger\<lparr>selective_rerun_rate_limited := Some True\<rparr>)"
    by simp
  have f: "selective_rerun_rate_limited (exampleTrigger\<lparr>selective_rerun_rate_limited := Some True\<rparr>)
             = Some True"
    by simp
  from rate_limited_rerun_reported_not_thrown [OF s r f] obtain r' where
    g: "getTestsToTrigger ?env = Inr r'"
    and c: "count_list (trace (fst (executeTests 1800000 exampleCompat ?env exampleConfig)))
              (ReporterError rateLimitedMessage) = 1"
    and o: "snd (executeTests 1800000 exampleCompat ?env exampleConfig) =
             (case waitForResults ?env of
                Inr rs \<Rightarrow>
                  Inr \<lparr> results = rs, summary_initial = initialSummary r',
                        summary_batchId = batch_id (exampleTrigger\<lparr>selective_rerun_rate_limited := Some True\<rparr>) \<rparr>
              | Inl error \<Rightarrow>
                  if instanceofBatchTimeoutRunawayError error then Inl (Rethrown error)
                  else Inl (CriticalError POLL_RESULTS_FAILED (message error)))"
    by blast
  from g have r': "r' = exampleTests" by (simp add: exampleEnv_def)
  from c have "ReporterError rateLimitedMessage
                 \<in> set (trace (fst (executeTests 1800000 exampleCompat ?env exampleConfig)))"
    by (metis count_list_0_iff zero_neq_one)
  moreover from o have "snd (executeTests 1800000 exampleCompat ?env exampleConfig)
     = Inr \<lparr> results = [''passed'', ''passed''], summary_initial = 0, summary_batchId = ''batch-1'' \<rparr>"
    unfolding r' by (simp add: example_defs)
  ultimately show ?thesis using s by simp
qed




lemma Math_max_Max: "xs \<noteq> [] \<Longrightarrow> Math_max xs = Num (Max (set xs))"
proof (induction xs)
  case Nil
  then show ?case by simp
next
  case (Cons x xs)
  then show ?case by (cases "xs = []") (auto simp: max_def Max_insert)
qed

lemma maxPollingTimeout_effective:
  assumes "tcs \<noteq> []"
  shows "maxPollingTimeout D config tcs = Num (effectiveDeadline D config tcs)"
proof -
  let ?f = "\<lambda>t. jsOrNumber (jsOr (jsOr (batchTimeout config) (overridePollingTimeout t))
                     (pollingTimeout config)) D"
  have m: "maxPollingTimeout D config tcs = Num (Max (set (map ?f tcs)))"
    using assms by (simp add: maxPollingTimeout_def Math_max_Max)
  show ?thesis
  proof (cases "\<exists>b. batchTimeout config = Some b \<and> b \<noteq> 0")
    case True
    then obtain b where b: "batchTimeout config = Some b" "b \<noteq> 0" by blast
    then have "map ?f tcs = map (\<lambda>t. b) tcs" by (simp add: jsOr_def jsOrNumber_def)
    then have "set (map ?f tcs) = {b}" using assms by (simp add: image_constant_conv)
    with m b show ?thesis by (simp add: effectiveDeadline_def)
  next
    case False
    then have "map ?f tcs =
        map (\<lambda>t. case overridePollingTimeout t of
                   None \<Rightarrow> globalDefault D config
                 | Some n \<Rightarrow> if n = 0 then globalDefault D config else n) tcs"
      by (auto simp: jsOr_def jsOrNumber_def globalDefault_def split: option.splits)
    with m False show ?thesis
      by (auto simp: effectiveDeadline_def widestDeadline_def split: option.splits)
  qed
qed

lemma pollTrace_deadline:
  "WaitForResults trig ts deadline tunnelled \<in> set (pollTrace D config tcs r tg tv) \<Longrightarrow>
   deadline = maxPollingTimeout D config tcs"
  by (auto simp: pollTrace_def stops_def split: if_splits)

lemma triggerTrace_deadline:
  "WaitForResults trig ts deadline tunnelled \<in> set (triggerTrace D env config tcs r tv) \<Longrightarrow>
   deadline = maxPollingTimeout D config tcs"
  by (cases "runTests env")
     (auto simp: triggerTrace_def stops_def split: if_splits dest: pollTrace_deadline)

lemma tunnelTrace_deadline:
  "WaitForResults trig ts deadline tunnelled \<in> set (tunnelTrace D env config tcs r) \<Longrightarrow>
   deadline = maxPollingTimeout D config tcs"
  by (cases "getTunnelPresignedURL env"; cases "tunnelSetup env")
     (auto simp: tunnelTrace_def split: if_splits dest: triggerTrace_deadline)

lemma waited_deadline:
  assumes "WaitForResults trig ts deadline tunnelled \<in> set (runTrace D env config)"
  shows "\<exists>tcs. getTriggerConfigs env config = Inr tcs \<and> tcs \<noteq> [] \<and>
           deadline = maxPollingTimeout D config tcs"
proof (cases "getTriggerConfigs env config")
  case (Inl e)
  with assms show ?thesis by (simp add: runTrace_def)
next
  case tcs: (Inr tcs)
  show ?thesis
  proof (cases "getTestsToTrigger env")
    case (Inl e)
    with assms tcs show ?thesis by (simp add: runTrace_def split: if_splits)
  next
    case (Inr r)
    with assms tcs show ?thesis
      by (auto simp: runTrace_def split: if_splits dest: tunnelTrace_deadline)
  qed
qed

text \<open>C1, as the code has it: the deadline given to the poller is the global \<^verbatim>\<open>batchTimeout\<close>
  that line 74 leaves in the configuration, the value returned by
  \<^verbatim>\<open>replacePollingTimeoutWithBatchTimeout\<close>, when it is set and not zero; otherwise it is the
  greatest, over the trigger configs, of the config's own timeout override when set and not
  zero and of the global default otherwise (the global \<^verbatim>\<open>pollingTimeout\<close> when set and not
  zero, else the default constant). With overrides of 60 and 120 and no such global
  \<^verbatim>\<open>batchTimeout\<close>, it is 120.\<close>

theorem effective_poll_deadline:
  assumes "WaitForResults trig ts deadline tunnelled
             \<in> set (trace (fst (executeTests D helpers env config)))"
  shows "\<exists>tcs. getTriggerConfigs env (normalizeConfig helpers config) = Inr tcs \<and> tcs \<noteq> [] \<and>
           deadline = Num (effectiveDeadline D (normalizeConfig helpers config) tcs) \<and>
           batchTimeout (normalizeConfig helpers config) =
             replacePollingTimeoutWithBatchTimeout helpers
               (moveLocationsToTestOverrides helpers
                  (replaceGlobalWithDefaultTestOverrides helpers config)) \<and>
           (batchTimeout (normalizeConfig helpers config) = None
              \<or> batchTimeout (normalizeConfig helpers config) = Some 0 \<longrightarrow>
            map overridePollingTimeout tcs = [Some 60, Some 120] \<longrightarrow> deadline = Num 120)"
proof -
  let ?config = "normalizeConfig helpers config"
  from assms obtain tcs where tcs: "getTriggerConfigs env ?config = Inr tcs" "tcs \<noteq> []"
    and d: "deadline = maxPollingTimeout D ?config tcs"
    unfolding trace_executeTests by (blast dest: waited_deadline)
  have "deadline = Num 120"
    if "batchTimeout ?config = None \<or> batchTimeout ?config = Some 0"
      "map overridePollingTimeout tcs = [Some 60, Some 120]"
  proof -
    from that(2) obtain a b where ab: "tcs = [a, b]" "overridePollingTimeout a = Some 60"
      "overridePollingTimeout b = Some 120"
      by (auto simp: map_eq_Cons_conv)
    with that(1) d show ?thesis
      by (auto simp: maxPollingTimeout_def jsOr_def jsOrNumber_def)
  qed
  moreover have "batchTimeout ?config =
             replacePollingTimeoutWithBatchTimeout helpers
               (moveLocationsToTestOverrides helpers
                  (replaceGlobalWithDefaultTestOverrides helpers config))"
    by (simp add: normalizeConfig_def Let_def)
  ultimately show ?thesis using tcs d by (auto simp: maxPollingTimeout_effective)
qed

theorem effective_poll_deadline_witness:
  "WaitForResults exampleTrigger (tests exampleTests) (Num 120) True
     \<in> set (trace (fst (executeTests 1800000 exampleCompat exampleEnv exampleConfig))) \<and>
   batchTimeout (normalizeConfig exampleCompat exampleConfig) = None \<and>
   (\<exists>tcs. getTriggerConfigs exampleEnv (normalizeConfig exampleCompat exampleConfig) = Inr tcs \<and>
      map overridePollingTimeout tcs = [Some 60, Some 120] \<and>
      Num 120 = Num (effectiveDeadline 1800000 (normalizeConfig exampleCompat exampleConfig) tcs))"
proof -
  have w: "WaitForResults exampleTrigger (tests exampleTests) (Num 120) True
     \<in> set (trace (fst (executeTests 1800000 exampleCompat exampleEnv exampleConfig)))"
    unfolding trace_executeTests
    by (simp add: eval_defs example_defs maxPollingTimeout_def overridePollingTimeout_def
          jsOr_def jsOrNumber_def ownProperties_def spread_def)
  obtain tcs where
    g: "getTriggerConfigs exampleEnv (normalizeConfig exampleCompat exampleConfig) = Inr tcs"
    and d: "Num 120 = Num (effectiveDeadline 1800000 (normalizeConfig exampleCompat exampleConfig) tcs)"
    using effective_poll_deadline [OF w] by blast
  from g have "map overridePollingTimeout tcs = [Some 60, Some 120]"
    by (auto simp: eval_defs example_defs overridePollingTimeout_def ownProperties_def spread_def)
  with w g d show ?thesis by (simp add: normalizeConfig_example exampleConfig_def)
qed

text \<open>The claim C1 fails as it is stated: with a global \<^verbatim>\<open>batchTimeout\<close> of 30 left by line 74
  and overrides of 60 and 120 on the two trigger configs, the poller is given 30, and not the
  120 that the greatest override gives. Likewise, under a helper that returns the deprecated
  global \<^verbatim>\<open>pollingTimeout\<close> when it is set, a caller's configuration with \<^verbatim>\<open>batchTimeout\<close>
  1800000 and \<^verbatim>\<open>pollingTimeout\<close> 45 polls with 45.\<close>

theorem global_batch_timeout_counterexample:
  "getTriggerConfigs exampleEnv
     (normalizeConfig exampleCompat (exampleConfig\<lparr>batchTimeout := Some 30\<rparr>))
     = Inr (mapTestIds (defaultTestOverrides exampleConfig)
              [''aaa-aaa-aaa'', ''bbb-bbb-bbb''] [] [testA, testB]) \<and>
   map overridePollingTimeout
     (mapTestIds (defaultTestOverrides exampleConfig)
        [''aaa-aaa-aaa'', ''bbb-bbb-bbb''] [] [testA, testB]) = [Some 60, Some 120] \<and>
   claimedDeadline 30 (mapTestIds (defaultTestOverrides exampleConfig)
        [''aaa-aaa-aaa'', ''bbb-bbb-bbb''] [] [testA, testB]) = 120 \<and>
   claimedDeadline 1800000 (mapTestIds (defaultTestOverrides exampleConfig)
        [''aaa-aaa-aaa'', ''bbb-bbb-bbb''] [] [testA, testB]) = 120 \<and>
   maxPollingTimeout 1800000
     (normalizeConfig exampleCompat (exampleConfig\<lparr>batchTimeout := Some 30\<rparr>))
     (mapTestIds (defaultTestOverrides exampleConfig)
        [''aaa-aaa-aaa'', ''bbb-bbb-bbb''] [] [testA, testB]) = Num 30 \<and>
   maxPollingTimeout 1800000
     (normalizeConfig exampleCompat (exampleConfig\<lparr>batchTimeout := Some 30\<rparr>))
     (mapTestIds (defaultTestOverrides exampleConfig)
        [''aaa-aaa-aaa'', ''bbb-bbb-bbb''] [] [testA, testB])
     \<noteq> Num (claimedDeadline 30 (mapTestIds (defaultTestOverrides exampleConfig)
                 [''aaa-aaa-aaa'', ''bbb-bbb-bbb''] [] [testA, testB])) \<and>
   WaitForResults exampleTrigger (tests exampleTests) (Num 30) True
     \<in> set (trace (fst (executeTests 1800000 exampleCompat exampleEnv
                           (exampleConfig\<lparr>batchTimeout := Some 30\<rparr>)))) \<and>
   WaitForResults exampleTrigger (tests exampleTests) (Num 45) True
     \<in> set (trace (fst (executeTests 1800000 pollingFirstCompat exampleEnv
                           (exampleConfig\<lparr>batchTimeout := Some 1800000,
                                            pollingTimeout := Some 45\<rparr>))))"
  unfolding trace_executeTests
  by (simp add: eval_defs example_defs maxPollingTimeout_def overridePollingTimeout_def
        jsOr_def jsOrNumber_def ownProperties_def spread_def claimedDeadline_def
        normalizeConfig_pollingFirst)

end
